theory Spec2Isabelle
  imports Complex_Main "HOL-Library.Signed_Division" "HOL-Library.Log_Nat"
begin


section \<open>gh-pr-feedback: a shallow embedding of main.go\<close>

text \<open>
  Go strings are byte sequences, modelled as \<open>string\<close> (lists of 8-bit characters).
  Go's \<open>int\<close> is modelled as \<open>int\<close>; the values held in it here are decoded from
  JSON or are list lengths, and no arithmetic that could overflow is done on them.
  An \<open>error\<close> is modelled by its message, and a call that may fail returns
  \<open>string + 'a\<close> with \<open>Inl\<close> carrying the message.
\<close>

subsection \<open>The functions of package strings, strconv and fmt that main.go calls\<close>

text \<open>\<open>strings.HasPrefix(s, prefix)\<close>.\<close>

definition strings_HasPrefix :: "string \<Rightarrow> string \<Rightarrow> bool" where
  "strings_HasPrefix s p = (length p \<le> length s \<and> take (length p) s = p)"

text \<open>\<open>strings.Contains(s, substr)\<close>: some suffix of \<open>s\<close> starts with \<open>substr\<close>.\<close>

fun strings_Contains :: "string \<Rightarrow> string \<Rightarrow> bool" where
  "strings_Contains [] sub = (sub = [])"
| "strings_Contains (c # cs) sub =
     (strings_HasPrefix (c # cs) sub \<or> strings_Contains cs sub)"

text \<open>
  \<open>strings.Split(s, sep)\<close> for a separator of one byte, which is how main.go calls it
  (\<open>"/"\<close> and \<open>"\n"\<close>). The result is never empty: \<open>Split("", sep)\<close> is \<open>[""]\<close>.
\<close>

fun strings_Split :: "string \<Rightarrow> char \<Rightarrow> string list" where
  "strings_Split [] sep = [[]]"
| "strings_Split (c # cs) sep =
     (if c = sep then [] # strings_Split cs sep
      else (case strings_Split cs sep of
              [] \<Rightarrow> [[c]]
            | p # ps \<Rightarrow> (c # p) # ps))"

text \<open>\<open>strings.Repeat(s, count)\<close> for a count that is not negative.\<close>

fun strings_Repeat :: "string \<Rightarrow> nat \<Rightarrow> string" where
  "strings_Repeat s 0 = []"
| "strings_Repeat s (Suc n) = s @ strings_Repeat s n"

text \<open>The verb \<open>%d\<close> of package fmt: decimal digits, with a minus sign when negative.\<close>

fun decimal :: "nat \<Rightarrow> string" where
  "decimal n =
     (if n < 10 then [''0123456789'' ! n]
      else decimal (n div 10) @ [''0123456789'' ! (n mod 10)])"

declare decimal.simps [simp del]

definition fmt_d :: "int \<Rightarrow> string" where
  "fmt_d i = (if i < 0 then CHR ''-'' # decimal (nat (- i)) else decimal (nat i))"

text \<open>
  \<open>strconv.Atoi\<close> on a 64-bit platform: an optional sign, then one or more decimal
  digits; a value outside the int64 range is an error (\<open>None\<close>).
\<close>

definition digit_of :: "char \<Rightarrow> nat option" where
  "digit_of c =
     (let k = (of_char c :: nat) in if 48 \<le> k \<and> k \<le> 57 then Some (k - 48) else None)"

fun parse_digits :: "nat \<Rightarrow> string \<Rightarrow> nat option" where
  "parse_digits acc [] = Some acc"
| "parse_digits acc (c # cs) =
     (case digit_of c of
        None \<Rightarrow> None
      | Some k \<Rightarrow> parse_digits (acc * 10 + k) cs)"

definition strconv_Atoi :: "string \<Rightarrow> int option" where
  "strconv_Atoi s =
     (case s of
        [] \<Rightarrow> None
      | c # cs \<Rightarrow>
          (let body = (if c = CHR ''-'' \<or> c = CHR ''+'' then cs else s) in
           if body = [] then None
           else (case parse_digits 0 body of
                   None \<Rightarrow> None
                 | Some n \<Rightarrow>
                     (let v = (if c = CHR ''-'' then - int n else int n) in
                      if - (2 ^ 63) \<le> v \<and> v < 2 ^ 63 then Some v else None))))"

subsection \<open>The data model\<close>

record ReviewComment =
  ID :: int
  Body :: string
  Path :: string
  Line :: "int option"
  StartLine :: "int option"
  OriginalLine :: "int option"
  DiffHunk :: string
  Author :: string
  AuthorAssoc :: string
  State :: string
  InReplyTo :: "int option"
  CreatedAt :: string
  UpdatedAt :: string
  Outdated :: bool
  SubjectType :: string

record StatusCheck =
  Name :: string
  Status :: string
  Conclusion :: string
  DetailsURL :: string
  WorkflowName :: string
  RunID :: string
  StartedAt :: string
  CompletedAt :: string
  CheckCommand :: string

record PRFeedback =
  PRNumber :: int
  Title :: string
  URL :: string
  Comments :: "ReviewComment list"
  GeneralIssues :: "ReviewComment list"
  StatusChecks :: "StatusCheck list"

text \<open>
  The anonymous structs the responses are decoded into, one per endpoint. A field that
  the response leaves out is the zero value of its type, as \<open>encoding/json\<close> leaves it.
\<close>

record pull_wire =
  pw_Number :: int
  pw_Title :: string
  pw_HTMLURL :: string

record review_comment_wire =
  rc_ID :: int
  rc_Body :: string
  rc_Path :: string
  rc_Line :: "int option"
  rc_StartLine :: "int option"
  rc_OriginalLine :: "int option"
  rc_DiffHunk :: string
  rc_AuthorAssoc :: string
  rc_Login :: string
  rc_InReplyToID :: "int option"
  rc_CreatedAt :: string
  rc_UpdatedAt :: string
  rc_Outdated :: bool
  rc_SubjectType :: string

record issue_comment_wire =
  ic_ID :: int
  ic_Body :: string
  ic_AuthorAssoc :: string
  ic_Login :: string
  ic_CreatedAt :: string
  ic_UpdatedAt :: string

record review_wire =
  rv_ID :: int
  rv_Body :: string
  rv_State :: string
  rv_Login :: string
  rv_AuthorAssoc :: string
  rv_SubmittedAt :: string

record rollup_wire =
  ru_Name :: string
  ru_Status :: string
  ru_Conclusion :: string
  ru_DetailsURL :: string
  ru_WorkflowName :: string
  ru_StartedAt :: string
  ru_CompletedAt :: string

text \<open>
  The collaborators. \<open>RESTClient\<close> is \<open>client.Get(endpoint, &v)\<close> at each of the four
  types it is called with. \<open>Tools\<close> is the \<open>gh\<close> command line
  (\<open>exec.Command("gh", args...).Output()\<close>) and \<open>json.Unmarshal\<close> into the rollup struct.
\<close>

record RESTClient =
  get_pull :: "string \<Rightarrow> string + pull_wire"
  get_review_comments :: "string \<Rightarrow> string + review_comment_wire list"
  get_issue_comments :: "string \<Rightarrow> string + issue_comment_wire list"
  get_reviews :: "string \<Rightarrow> string + review_wire list"

record Tools =
  gh_Output :: "string list \<Rightarrow> string + string"
  unmarshal_rollup :: "string \<Rightarrow> string + rollup_wire list"

subsection \<open>Status checks\<close>

text \<open>
  \<open>extractRunID\<close>: the part after the first part that is \<open>runs\<close> and has a successor.
  A last part \<open>runs\<close> fails the test \<open>i+1 < len(parts)\<close>, and the loop ends.
\<close>

fun runID_of_parts :: "string list \<Rightarrow> string" where
  "runID_of_parts [] = []"
| "runID_of_parts [p] = []"
| "runID_of_parts (p # q # ps) = (if p = ''runs'' then q else runID_of_parts (q # ps))"

definition extractRunID :: "string \<Rightarrow> string" where
  "extractRunID detailsURL = runID_of_parts (strings_Split detailsURL CHR ''/'')"

text \<open>The body of the loop of \<open>getStatusChecks\<close> for a check that is kept.\<close>

definition mkStatusCheck :: "rollup_wire \<Rightarrow> StatusCheck" where
  "mkStatusCheck check =
     (let statusCheck =
        \<lparr>Name = ru_Name check, Status = ru_Status check, Conclusion = ru_Conclusion check,
         DetailsURL = ru_DetailsURL check, WorkflowName = ru_WorkflowName check,
         RunID = [], StartedAt = ru_StartedAt check, CompletedAt = ru_CompletedAt check,
         CheckCommand = []\<rparr>
      in if strings_Contains (ru_DetailsURL check) ''/actions/runs/''
         then (let runID = extractRunID (ru_DetailsURL check)
               in if runID \<noteq> []
                  then statusCheck\<lparr>RunID := runID, CheckCommand := ''gh run view '' @ runID\<rparr>
                  else statusCheck)
         else statusCheck)"

fun collectStatusChecks :: "StatusCheck list \<Rightarrow> rollup_wire list \<Rightarrow> StatusCheck list" where
  "collectStatusChecks statusChecks [] = statusChecks"
| "collectStatusChecks statusChecks (check # rest) =
     collectStatusChecks
       (if ru_Conclusion check = ''FAILURE'' \<or> ru_Conclusion check = ''ERROR''
           \<or> ru_Conclusion check = ''CANCELLED''
        then statusChecks @ [mkStatusCheck check]
        else statusChecks)
       rest"

definition getStatusChecks :: "Tools \<Rightarrow> string \<Rightarrow> int \<Rightarrow> string + StatusCheck list" where
  "getStatusChecks sys repo prNumber =
     (case gh_Output sys [''pr'', ''view'', fmt_d prNumber, ''--repo'', repo,
                          ''--json'', ''statusCheckRollup''] of
        Inl e \<Rightarrow> Inl (''failed to get status checks: '' @ e)
      | Inr output \<Rightarrow>
          (case unmarshal_rollup sys output of
             Inl e \<Rightarrow> Inl (''failed to parse status checks: '' @ e)
           | Inr rollup \<Rightarrow> Inr (collectStatusChecks [] rollup)))"

subsection \<open>The aggregate\<close>

fun collectComments ::
  "ReviewComment list \<Rightarrow> review_comment_wire list \<Rightarrow> ReviewComment list" where
  "collectComments acc [] = acc"
| "collectComments acc (comment # rest) =
     collectComments
       (if rc_InReplyToID comment = None
        then acc @ [\<lparr>ID = rc_ID comment, Body = rc_Body comment, Path = rc_Path comment,
                     Line = rc_Line comment, StartLine = rc_StartLine comment,
                     OriginalLine = rc_OriginalLine comment, DiffHunk = rc_DiffHunk comment,
                     Author = rc_Login comment, AuthorAssoc = rc_AuthorAssoc comment,
                     State = ''unresolved'', InReplyTo = rc_InReplyToID comment,
                     CreatedAt = rc_CreatedAt comment, UpdatedAt = rc_UpdatedAt comment,
                     Outdated = rc_Outdated comment, SubjectType = rc_SubjectType comment\<rparr>]
        else acc)
       rest"

fun collectIssueComments ::
  "ReviewComment list \<Rightarrow> issue_comment_wire list \<Rightarrow> ReviewComment list" where
  "collectIssueComments acc [] = acc"
| "collectIssueComments acc (comment # rest) =
     collectIssueComments
       (acc @ [\<lparr>ID = ic_ID comment, Body = ic_Body comment, Path = [],
                 Line = None, StartLine = None, OriginalLine = None, DiffHunk = [],
                 Author = ic_Login comment, AuthorAssoc = ic_AuthorAssoc comment,
                 State = ''unresolved'', InReplyTo = None,
                 CreatedAt = ic_CreatedAt comment, UpdatedAt = ic_UpdatedAt comment,
                 Outdated = False, SubjectType = []\<rparr>])
       rest"

fun collectReviews :: "ReviewComment list \<Rightarrow> review_wire list \<Rightarrow> ReviewComment list" where
  "collectReviews acc [] = acc"
| "collectReviews acc (review # rest) =
     collectReviews
       (if rv_Body review \<noteq> [] \<and> rv_State review = ''COMMENTED''
        then acc @ [\<lparr>ID = rv_ID review, Body = rv_Body review, Path = [],
                     Line = None, StartLine = None, OriginalLine = None, DiffHunk = [],
                     Author = rv_Login review, AuthorAssoc = rv_AuthorAssoc review,
                     State = ''unresolved'', InReplyTo = None,
                     CreatedAt = rv_SubmittedAt review, UpdatedAt = rv_SubmittedAt review,
                     Outdated = False, SubjectType = []\<rparr>]
        else acc)
       rest"

text \<open>
  \<open>getPRFeedback\<close> returns what it wrote to standard error and its result: the error,
  or the aggregate. A slice that nothing was appended to is \<open>nil\<close>, modelled as \<open>[]\<close>.
\<close>

definition getPRFeedback ::
  "RESTClient \<Rightarrow> Tools \<Rightarrow> string \<Rightarrow> int \<Rightarrow> string \<times> (string + PRFeedback)" where
  "getPRFeedback client sys repo prNumber =
     (case get_pull client (''repos/'' @ repo @ ''/pulls/'' @ fmt_d prNumber) of
        Inl e \<Rightarrow> ([], Inl (''failed to fetch PR details: '' @ e))
      | Inr pr \<Rightarrow>
     (case get_review_comments client
             (''repos/'' @ repo @ ''/pulls/'' @ fmt_d prNumber @ ''/comments'') of
        Inl e \<Rightarrow> ([], Inl (''failed to fetch review comments: '' @ e))
      | Inr reviewComments \<Rightarrow>
     (case get_issue_comments client
             (''repos/'' @ repo @ ''/issues/'' @ fmt_d prNumber @ ''/comments'') of
        Inl e \<Rightarrow> ([], Inl (''failed to fetch issue comments: '' @ e))
      | Inr issueComments \<Rightarrow>
     (case get_reviews client
             (''repos/'' @ repo @ ''/pulls/'' @ fmt_d prNumber @ ''/reviews'') of
        Inl e \<Rightarrow> ([], Inl (''failed to fetch reviews: '' @ e))
      | Inr reviews \<Rightarrow>
     (let feedback =
        \<lparr>PRNumber = pw_Number pr, Title = pw_Title pr, URL = pw_HTMLURL pr,
         Comments = collectComments [] reviewComments,
         GeneralIssues = collectReviews (collectIssueComments [] issueComments) reviews,
         StatusChecks = []\<rparr>
      in case getStatusChecks sys repo prNumber of
           Inl e \<Rightarrow>
             (''Warning: failed to fetch status checks: '' @ e @ [CHR 0x0A], Inr feedback)
         | Inr statusChecks \<Rightarrow>
             ([], Inr (feedback\<lparr>StatusChecks := statusChecks\<rparr>)))))))"

subsection \<open>float64 arithmetic, as package time uses it\<close>

text \<open>
  \<open>Duration.Seconds\<close>, \<open>Minutes\<close> and \<open>Hours\<close> compute in float64, and \<open>formatTimeAgo\<close>
  and \<open>formatDuration\<close> convert the results back with \<open>int(...)\<close>. A float64 is modelled
  by the rational it denotes, and each operation by the exact result rounded to the
  nearest float64, ties to even (IEEE 754 binary64, 53 bits of precision). The values
  computed from an int64 duration lie between \<open>2^-42\<close> and \<open>2^64\<close> in magnitude or are
  zero, so neither overflow nor subnormal numbers arise and the exponent is left
  unbounded.
\<close>

text \<open>\<open>pow2 e\<close> is \<open>2^e\<close> for an integer exponent.\<close>

definition pow2 :: "int \<Rightarrow> rat" where
  "pow2 e = (if 0 \<le> e then 2 ^ nat e else 1 / 2 ^ nat (- e))"

text \<open>
  \<open>ilog2 x\<close> is the integer part of the binary logarithm of \<open>x > 0\<close>; \<open>bitlen k\<close> is
  the number of binary digits of \<open>k\<close>.
\<close>

definition ilog2 :: "rat \<Rightarrow> int" where
  "ilog2 x =
     (if 1 \<le> x then bitlen \<lfloor>x\<rfloor> - 1
      else - bitlen (\<lceil>1 / x\<rceil> - 1))"

text \<open>The nearest integer, a tie going to the even one.\<close>

definition round_even :: "rat \<Rightarrow> int" where
  "round_even m =
     (let f = \<lfloor>m\<rfloor>; r = m - of_int f
      in if r < 1 / 2 then f
         else if 1 / 2 < r then f + 1
         else if even f then f else f + 1)"

text \<open>The float64 nearest to \<open>x\<close>: \<open>x\<close> is scaled to a 53-bit significand and rounded.\<close>

definition f64 :: "rat \<Rightarrow> rat" where
  "f64 x =
     (if x = 0 then 0
      else (let e = ilog2 \<bar>x\<bar> - 52
            in sgn x * of_int (round_even (\<bar>x\<bar> / pow2 e)) * pow2 e))"

definition f64_of_int :: "int \<Rightarrow> rat" where
  "f64_of_int i = f64 (of_int i)"

definition f64_add :: "rat \<Rightarrow> rat \<Rightarrow> rat" where
  "f64_add a b = f64 (a + b)"

definition f64_div :: "rat \<Rightarrow> rat \<Rightarrow> rat" where
  "f64_div a b = f64 (a / b)"

text \<open>The conversion \<open>int(f)\<close> of a float64 in range: the fraction is discarded.\<close>

definition int_of_f64 :: "rat \<Rightarrow> int" where
  "int_of_f64 x = (if 0 \<le> x then \<lfloor>x\<rfloor> else \<lceil>x\<rceil>)"

subsection \<open>Durations and instants\<close>

text \<open>
  A \<open>time.Duration\<close> is an int64 count of nanoseconds, modelled as an \<open>int\<close> between
  \<open>minDuration\<close> and \<open>maxDuration\<close>. Go's \<open>/\<close> and \<open>%\<close> on integers truncate towards
  zero (\<open>sdiv\<close>, \<open>smod\<close>).
\<close>

definition Second :: int where "Second = 1000000000"
definition Minute :: int where "Minute = 60 * Second"
definition Hour :: int where "Hour = 60 * Minute"

definition minDuration :: int where "minDuration = - (2 ^ 63)"
definition maxDuration :: int where "maxDuration = 2 ^ 63 - 1"

definition Duration_Seconds :: "int \<Rightarrow> rat" where
  "Duration_Seconds d =
     f64_add (f64_of_int (d sdiv Second)) (f64_div (f64_of_int (d smod Second)) 1000000000)"

definition Duration_Minutes :: "int \<Rightarrow> rat" where
  "Duration_Minutes d =
     f64_add (f64_of_int (d sdiv Minute)) (f64_div (f64_of_int (d smod Minute)) 60000000000)"

definition Duration_Hours :: "int \<Rightarrow> rat" where
  "Duration_Hours d =
     f64_add (f64_of_int (d sdiv Hour)) (f64_div (f64_of_int (d smod Hour)) 3600000000000)"

text \<open>
  A \<open>time.Time\<close> without a monotonic reading is modelled by its nanoseconds since the
  Unix epoch. \<open>zeroTime\<close> is \<open>time.Time{}\<close>, January 1 of year 1, which \<open>IsZero\<close> tests for.
  \<open>Time.Sub\<close> saturates at the ends of the int64 range.
\<close>

definition zeroTime :: int where
  "zeroTime = - 62135596800 * 1000000000"

definition Time_Sub :: "int \<Rightarrow> int \<Rightarrow> int" where
  "Time_Sub t u = max minDuration (min maxDuration (t - u))"

subsection \<open>Formatting durations\<close>

definition formatTimeAgo :: "int \<Rightarrow> string" where
  "formatTimeAgo d =
     (if d < Minute then ''just now''
      else if d < Hour
      then (let mins = int_of_f64 (Duration_Minutes d)
            in if mins = 1 then ''1 minute ago'' else fmt_d mins @ '' minutes ago'')
      else if d < 24 * Hour
      then (let hours = int_of_f64 (Duration_Hours d)
            in if hours = 1 then ''1 hour ago'' else fmt_d hours @ '' hours ago'')
      else (let days = int_of_f64 (f64_div (Duration_Hours d) 24)
            in if days = 1 then ''1 day ago''
               else if days < 30 then fmt_d days @ '' days ago''
               else if days < 365
               then (let months = days sdiv 30
                     in if months = 1 then ''1 month ago''
                        else fmt_d months @ '' months ago'')
               else (let years = days sdiv 365
                     in if years = 1 then ''1 year ago''
                        else fmt_d years @ '' years ago'')))"

definition formatDuration :: "int \<Rightarrow> string" where
  "formatDuration d =
     (if d < Minute then fmt_d (int_of_f64 (Duration_Seconds d)) @ ''s''
      else if d < Hour
      then fmt_d (int_of_f64 (Duration_Minutes d)) @ ''m ''
           @ fmt_d (int_of_f64 (Duration_Seconds d) smod 60) @ ''s''
      else fmt_d (int_of_f64 (Duration_Hours d)) @ ''h ''
           @ fmt_d (int_of_f64 (Duration_Minutes d) smod 60) @ ''m'')"

text \<open>
  For comparison with \<open>formatTimeAgo\<close>, the buckets as the specification words them,
  computed in integer arithmetic: under a minute \<open>just now\<close>, then whole minutes,
  hours, days, months of 30 days and years of 365 days, singular when the count is 1.
\<close>

definition ago :: "int \<Rightarrow> string \<Rightarrow> string" where
  "ago n unit =
     (if n = 1 then ''1 '' @ unit @ '' ago'' else fmt_d n @ '' '' @ unit @ ''s ago'')"

definition timeAgo_buckets :: "int \<Rightarrow> string" where
  "timeAgo_buckets d =
     (if d < Minute then ''just now''
      else if d < Hour then ago (d div Minute) ''minute''
      else if d < 24 * Hour then ago (d div Hour) ''hour''
      else if d < 30 * (24 * Hour) then ago (d div (24 * Hour)) ''day''
      else if d < 365 * (24 * Hour) then ago (d div (30 * (24 * Hour))) ''month''
      else ago (d div (365 * (24 * Hour))) ''year'')"

subsection \<open>The human-readable report\<close>

text \<open>ANSI colour codes, and the non-ASCII glyphs of the report as their UTF-8 bytes.\<close>

definition colorReset :: string where "colorReset = CHR 0x1B # ''[0m''"
definition colorRed :: string where "colorRed = CHR 0x1B # ''[31m''"
definition colorGreen :: string where "colorGreen = CHR 0x1B # ''[32m''"
definition colorYellow :: string where "colorYellow = CHR 0x1B # ''[33m''"
definition colorBlue :: string where "colorBlue = CHR 0x1B # ''[34m''"
definition colorCyan :: string where "colorCyan = CHR 0x1B # ''[36m''"
definition colorGray :: string where "colorGray = CHR 0x1B # ''[90m''"
definition colorBold :: string where "colorBold = CHR 0x1B # ''[1m''"

definition newline :: string where "newline = [CHR 0x0A]"
definition bullet :: string where "bullet = [CHR 0xE2, CHR 0x80, CHR 0xA2]"
definition rule_glyph :: string where "rule_glyph = [CHR 0xE2, CHR 0x94, CHR 0x80]"
definition cross_glyph :: string where "cross_glyph = [CHR 0xE2, CHR 0x9C, CHR 0x97]"
definition cancelled_glyph :: string where "cancelled_glyph = [CHR 0xE2, CHR 0x8A, CHR 0x98]"
definition arrow_glyph :: string where "arrow_glyph = [CHR 0xE2, CHR 0x86, CHR 0x92]"

text \<open>
  The library functions the report calls whose results depend on Unicode tables or on
  the layout parser of package time are parameters: \<open>time.Parse(time.RFC3339, s)\<close>
  (\<open>None\<close> for an error), \<open>strings.ToLower\<close> and \<open>strings.Title\<close>.
\<close>

record GoLib =
  time_Parse :: "string \<Rightarrow> int option"
  strings_ToLower :: "string \<Rightarrow> string"
  strings_Title :: "string \<Rightarrow> string"

text \<open>
  \<open>parseTime\<close> returns the zero \<open>time.Time\<close> with an error; the checks section drops
  the error and tests \<open>IsZero\<close>.
\<close>

definition parseTime :: "GoLib \<Rightarrow> string \<Rightarrow> int option" where
  "parseTime lib timeStr = time_Parse lib timeStr"

definition parseTime_value :: "GoLib \<Rightarrow> string \<Rightarrow> int" where
  "parseTime_value lib timeStr =
     (case parseTime lib timeStr of None \<Rightarrow> zeroTime | Some t \<Rightarrow> t)"

text \<open>
  The wall clock is a parameter as well: \<open>clock k\<close> is what the \<open>k\<close>-th call of
  \<open>time.Now()\<close> of the run returns. The state of the report is the text written to
  standard output so far and the number of clock readings made so far;
  \<open>time.Since(t)\<close> makes one reading.
\<close>

type_synonym console = "string \<times> nat"

definition time_Since :: "(nat \<Rightarrow> int) \<Rightarrow> nat \<Rightarrow> int \<Rightarrow> int" where
  "time_Since clock k t = Time_Sub (clock k) t"

text \<open>The loop \<open>for _, line := range lines { fmt.Printf("%s\n", line) }\<close>.\<close>

fun printLines :: "string \<Rightarrow> string list \<Rightarrow> string" where
  "printLines out [] = out"
| "printLines out (line # rest) = printLines (out @ line @ newline) rest"

fun printDiffLines :: "string \<Rightarrow> string list \<Rightarrow> string" where
  "printDiffLines out [] = out"
| "printDiffLines out (line # rest) =
     printDiffLines
       (case line of
          [] \<Rightarrow> out
        | c # cs \<Rightarrow>
            (if c = CHR ''+'' then out @ ''    '' @ colorGreen @ line @ colorReset @ newline
             else if c = CHR ''-'' then out @ ''    '' @ colorRed @ line @ colorReset @ newline
             else if c = CHR ''@'' then out @ ''    '' @ colorCyan @ line @ colorReset @ newline
             else out @ ''    '' @ line @ newline))
       rest"

definition printDiffHunk :: "string \<Rightarrow> string \<Rightarrow> string" where
  "printDiffHunk out diffHunk = printDiffLines out (strings_Split diffHunk (CHR 0x0A))"

text \<open>One general comment: the body of the first loop of \<open>printHumanReadable\<close>.\<close>

definition printGeneralIssue ::
  "GoLib \<Rightarrow> (nat \<Rightarrow> int) \<Rightarrow> console \<Rightarrow> ReviewComment \<Rightarrow> console" where
  "printGeneralIssue lib clock st review =
     (let out1 = fst st @ colorBold @ Author review @ colorReset @ '' commented ''
                 @ colorGray @ ''(''
                 @ strings_Title lib (strings_ToLower lib (AuthorAssoc review))
                 @ '')'' @ colorReset @ '' '' @ bullet @ '' '' @ colorGray;
          st2 = (if CreatedAt review \<noteq> []
                 then (case parseTime lib (CreatedAt review) of
                         Some t \<Rightarrow> (out1 @ formatTimeAgo (time_Since clock (snd st) t),
                                    Suc (snd st))
                       | None \<Rightarrow> (out1, snd st))
                 else (out1, snd st));
          out3 = fst st2 @ colorReset @ newline @ newline;
          out4 = printLines out3 (strings_Split (Body review) (CHR 0x0A))
      in (out4 @ newline, snd st2))"

fun printGeneralIssues ::
  "GoLib \<Rightarrow> (nat \<Rightarrow> int) \<Rightarrow> console \<Rightarrow> ReviewComment list \<Rightarrow> console" where
  "printGeneralIssues lib clock st [] = st"
| "printGeneralIssues lib clock st (review # rest) =
     printGeneralIssues lib clock (printGeneralIssue lib clock st review) rest"

text \<open>
  One anchored comment. The test \<open>i < len(feedback.Comments)-1\<close> for the separator
  is \<open>\<not> is_last\<close>.
\<close>

definition printComment ::
  "GoLib \<Rightarrow> (nat \<Rightarrow> int) \<Rightarrow> console \<Rightarrow> ReviewComment \<Rightarrow> bool \<Rightarrow> console" where
  "printComment lib clock st comment is_last =
     (let out1 = fst st @ colorBold @ Author comment @ colorReset;
          out2 = (if AuthorAssoc comment \<noteq> [] \<and> AuthorAssoc comment \<noteq> ''NONE''
                  then out1 @ '' '' @ bullet @ '' '' @ colorGray
                       @ strings_ToLower lib (AuthorAssoc comment) @ colorReset
                  else out1);
          st3 = (if CreatedAt comment \<noteq> []
                 then (case parseTime lib (CreatedAt comment) of
                         Some t \<Rightarrow> (out2 @ '' '' @ bullet @ '' '' @ colorGray
                                      @ formatTimeAgo (time_Since clock (snd st) t)
                                      @ colorReset,
                                    Suc (snd st))
                       | None \<Rightarrow> (out2, snd st))
                 else (out2, snd st));
          out4 = (if Outdated comment
                  then fst st3 @ '' '' @ colorYellow @ bullet @ '' Outdated'' @ colorReset
                  else fst st3);
          out5 = out4 @ newline @ newline;
          out6 = printLines out5 (strings_Split (Body comment) (CHR 0x0A)) @ newline;
          out7 = (if Path comment \<noteq> []
                  then (let o1 = out6 @ colorBlue @ Path comment;
                            o2 = (case Line comment of
                                    Some n \<Rightarrow> if n > 0 then o1 @ '' on line '' @ fmt_d n else o1
                                  | None \<Rightarrow> o1);
                            o3 = o2 @ colorReset @ newline
                        in if DiffHunk comment \<noteq> [] \<and> \<not> Outdated comment
                           then printDiffHunk (o3 @ newline) (DiffHunk comment)
                           else o3)
                  else out6);
          out8 = (if \<not> is_last
                  then out7 @ newline @ strings_Repeat rule_glyph 100 @ newline @ newline
                  else out7)
      in (out8, snd st3))"

fun printComments ::
  "GoLib \<Rightarrow> (nat \<Rightarrow> int) \<Rightarrow> console \<Rightarrow> ReviewComment list \<Rightarrow> console" where
  "printComments lib clock st [] = st"
| "printComments lib clock st (comment # rest) =
     printComments lib clock (printComment lib clock st comment (rest = [])) rest"

text \<open>One failed check: the body of the last loop.\<close>

definition printCheck :: "GoLib \<Rightarrow> string \<Rightarrow> StatusCheck \<Rightarrow> string" where
  "printCheck lib out check =
     (let symbol = (if Conclusion check = ''CANCELLED'' then cancelled_glyph else cross_glyph);
          symbolColor = (if Conclusion check = ''CANCELLED'' then colorYellow else colorRed);
          out1 = out @ symbolColor @ symbol @ colorReset @ '' '' @ Name check;
          out2 = (if StartedAt check \<noteq> [] \<and> CompletedAt check \<noteq> []
                  then (let start = parseTime_value lib (StartedAt check);
                            end' = parseTime_value lib (CompletedAt check)
                        in if start \<noteq> zeroTime \<and> end' \<noteq> zeroTime
                           then out1 @ '' '' @ colorGray @ ''(took ''
                                @ formatDuration (Time_Sub end' start) @ '')'' @ colorReset
                           else out1)
                  else out1);
          out3 = (if CheckCommand check \<noteq> []
                  then out2 @ '' '' @ arrow_glyph @ '' '' @ colorCyan @ CheckCommand check
                       @ colorReset
                  else out2)
      in out3 @ newline)"

fun printChecks :: "GoLib \<Rightarrow> string \<Rightarrow> StatusCheck list \<Rightarrow> string" where
  "printChecks lib out [] = out"
| "printChecks lib out (check # rest) = printChecks lib (printCheck lib out check) rest"

text \<open>
  \<open>printHumanReadable\<close>, started with nothing written and \<open>k\<close> clock readings made.
  It returns the text written and the number of clock readings made by its end.
\<close>

definition printHumanReadable ::
  "GoLib \<Rightarrow> (nat \<Rightarrow> int) \<Rightarrow> nat \<Rightarrow> PRFeedback \<Rightarrow> console" where
  "printHumanReadable lib clock k feedback =
     (let commentCount = int (length (Comments feedback))
                         + int (length (GeneralIssues feedback));
          checkCount = int (length (StatusChecks feedback));
          out1 = colorBold @ Title feedback @ '' #'' @ fmt_d (PRNumber feedback)
                 @ colorReset @ newline;
          out2 = out1 @ colorGreen @ ''Open'' @ colorReset @ '' '' @ bullet @ '' ''
                 @ colorGray @ URL feedback @ colorReset @ newline;
          out3 = (if commentCount > 0 \<or> checkCount > 0
                  then (let out2b = out2 @ newline
                        in if commentCount > 0 \<and> checkCount > 0
                           then out2b @ colorYellow @ ''!'' @ colorReset @ '' Found ''
                                @ fmt_d commentCount @ '' unresolved comment(s) and ''
                                @ fmt_d checkCount @ '' failing check(s)'' @ newline
                           else if commentCount > 0
                           then out2b @ colorYellow @ ''!'' @ colorReset @ '' Found ''
                                @ fmt_d commentCount @ '' unresolved comment(s)'' @ newline
                           else if checkCount > 0
                           then out2b @ colorRed @ ''X'' @ colorReset @ '' Found ''
                                @ fmt_d checkCount @ '' failing check(s)'' @ newline
                           else out2b)
                  else out2);
          st4 = (out3 @ newline, k);
          st5 = (if Comments feedback \<noteq> [] \<or> GeneralIssues feedback \<noteq> []
                 then (let s1 = (if GeneralIssues feedback \<noteq> []
                                 then printGeneralIssues lib clock st4 (GeneralIssues feedback)
                                 else st4)
                       in if Comments feedback \<noteq> []
                          then printComments lib clock
                                 (fst s1 @ strings_Repeat rule_glyph 100 @ newline @ newline,
                                  snd s1)
                                 (Comments feedback)
                          else s1)
                 else st4)
      in if StatusChecks feedback \<noteq> []
         then (printChecks lib
                 (fst st5 @ newline @ strings_Repeat rule_glyph 100 @ newline @ newline
                  @ colorBold @ ''Failed Checks'' @ colorReset @ newline @ newline)
                 (StatusChecks feedback),
               snd st5)
         else st5)"

subsection \<open>The structured report\<close>

text \<open>
  \<open>json.MarshalIndent(feedback, "", "  ")\<close> follows the struct tags: a field is written
  under the name of its tag, in the order of the struct; a nil pointer is \<open>null\<close>;
  a field tagged \<open>omitempty\<close> is left out when it is false, the empty string or a nil
  pointer. A nil slice is \<open>null\<close>, and the slices of the aggregate are nil when empty,
  since they are only built by \<open>append\<close>. The model stops at the JSON document: the
  text written is the encoding of that document, which \<open>encoding/json\<close> computes from
  it alone.
\<close>

datatype json =
  JNull
  | JBool bool
  | JInt int
  | JString string
  | JArray "json list"
  | JObject "(string \<times> json) list"

definition json_ptr :: "int option \<Rightarrow> json" where
  "json_ptr p = (case p of None \<Rightarrow> JNull | Some n \<Rightarrow> JInt n)"

definition omitempty_string :: "string \<Rightarrow> string \<Rightarrow> (string \<times> json) list" where
  "omitempty_string key s = (if s = [] then [] else [(key, JString s)])"

definition omitempty_bool :: "string \<Rightarrow> bool \<Rightarrow> (string \<times> json) list" where
  "omitempty_bool key b = (if b then [(key, JBool True)] else [])"

definition omitempty_ptr :: "string \<Rightarrow> int option \<Rightarrow> (string \<times> json) list" where
  "omitempty_ptr key p = (case p of None \<Rightarrow> [] | Some n \<Rightarrow> [(key, JInt n)])"

definition ReviewComment_fields :: "ReviewComment \<Rightarrow> (string \<times> json) list" where
  "ReviewComment_fields c =
     [(''id'', JInt (ID c)), (''body'', JString (Body c)), (''path'', JString (Path c)),
      (''line'', json_ptr (Line c)), (''start_line'', json_ptr (StartLine c))]
     @ omitempty_ptr ''original_line'' (OriginalLine c)
     @ omitempty_string ''diff_hunk'' (DiffHunk c)
     @ [(''author'', JString (Author c))]
     @ omitempty_string ''author_association'' (AuthorAssoc c)
     @ [(''state'', JString (State c)), (''in_reply_to_id'', json_ptr (InReplyTo c)),
        (''created_at'', JString (CreatedAt c)), (''updated_at'', JString (UpdatedAt c))]
     @ omitempty_bool ''outdated'' (Outdated c)
     @ omitempty_string ''subject_type'' (SubjectType c)"

definition StatusCheck_fields :: "StatusCheck \<Rightarrow> (string \<times> json) list" where
  "StatusCheck_fields s =
     [(''name'', JString (Name s)), (''status'', JString (Status s)),
      (''conclusion'', JString (Conclusion s)), (''details_url'', JString (DetailsURL s))]
     @ omitempty_string ''workflow_name'' (WorkflowName s)
     @ omitempty_string ''run_id'' (RunID s)
     @ [(''started_at'', JString (StartedAt s)), (''completed_at'', JString (CompletedAt s))]
     @ omitempty_string ''check_command'' (CheckCommand s)"

definition json_slice :: "('a \<Rightarrow> json) \<Rightarrow> 'a list \<Rightarrow> json" where
  "json_slice f xs = (if xs = [] then JNull else JArray (map f xs))"

definition marshal_PRFeedback :: "PRFeedback \<Rightarrow> json" where
  "marshal_PRFeedback feedback =
     JObject
       [(''pr_number'', JInt (PRNumber feedback)), (''title'', JString (Title feedback)),
        (''url'', JString (URL feedback)),
        (''comments'',
           json_slice (\<lambda>c. JObject (ReviewComment_fields c)) (Comments feedback)),
        (''general_issues'',
           json_slice (\<lambda>c. JObject (ReviewComment_fields c)) (GeneralIssues feedback)),
        (''status_checks'',
           json_slice (\<lambda>s. JObject (StatusCheck_fields s)) (StatusChecks feedback))]"

text \<open>
  The last step of \<open>main\<close>: what is written to standard output for an aggregate,
  and the number of clock readings made by then. The encoder cannot fail on these
  types, so the error branch of \<open>main\<close> is not reached.
\<close>

datatype report = Human string | Structured json

definition render ::
  "GoLib \<Rightarrow> (nat \<Rightarrow> int) \<Rightarrow> nat \<Rightarrow> bool \<Rightarrow> PRFeedback \<Rightarrow> report \<times> nat" where
  "render lib clock k jsonOutput feedback =
     (if jsonOutput then (Structured (marshal_PRFeedback feedback), k)
      else (Human (fst (printHumanReadable lib clock k feedback)),
            snd (printHumanReadable lib clock k feedback)))"

subsection \<open>The command line\<close>

text \<open>
  The argument loop of \<open>main\<close>. It ends the process on \<open>--version\<close>, \<open>--help\<close>, a
  \<open>--repo\<close> without a value and a directory that does not exist; otherwise it leaves
  the four variables. \<open>notExist dir\<close> is \<open>os.IsNotExist\<close> of the error of \<open>os.Stat(dir)\<close>.
\<close>

record Options =
  opt_jsonOutput :: bool
  opt_targetDir :: string
  opt_prNumber :: int
  opt_repoName :: string

datatype ArgsResult =
  PrintVersion
  | PrintHelp
  | RepoRequiresValue
  | DirectoryDoesNotExist string
  | Parsed Options

definition initialOptions :: Options where
  "initialOptions = \<lparr>opt_jsonOutput = False, opt_targetDir = [], opt_prNumber = 0, opt_repoName = []\<rparr>"

text \<open>The test \<open>num, err := strconv.Atoi(arg); err == nil && num > 0\<close>.\<close>

definition positiveNumber :: "string \<Rightarrow> int option" where
  "positiveNumber arg =
     (case strconv_Atoi arg of
        None \<Rightarrow> None
      | Some num \<Rightarrow> if num > 0 then Some num else None)"

fun parseArgs :: "(string \<Rightarrow> bool) \<Rightarrow> Options \<Rightarrow> string list \<Rightarrow> ArgsResult" where
  "parseArgs notExist opts [] = Parsed opts"
| "parseArgs notExist opts (arg # rest) =
     (if arg = ''--version'' \<or> arg = ''-v'' then PrintVersion
      else if arg = ''--help'' \<or> arg = ''-h'' then PrintHelp
      else if arg = ''--json'' \<or> arg = ''-j''
      then parseArgs notExist (opts\<lparr>opt_jsonOutput := True\<rparr>) rest
      else if arg = ''--repo'' \<or> arg = ''-R''
      then (case rest of
              [] \<Rightarrow> RepoRequiresValue
            | v # rest' \<Rightarrow> parseArgs notExist (opts\<lparr>opt_repoName := v\<rparr>) rest')
      else if \<not> strings_HasPrefix arg ''-''
      then (case positiveNumber arg of
              Some num \<Rightarrow> parseArgs notExist (opts\<lparr>opt_prNumber := num\<rparr>) rest
            | None \<Rightarrow>
                if opt_targetDir opts = []
                then (if notExist arg then DirectoryDoesNotExist arg
                      else parseArgs notExist (opts\<lparr>opt_targetDir := arg\<rparr>) rest)
                else parseArgs notExist opts rest)
      else parseArgs notExist opts rest)"

text \<open>
  For the statement of what the loop computes: the arguments it treats as positional,
  that is, those that are neither the value of \<open>--repo\<close> nor start with a dash.
\<close>

fun positionals :: "string list \<Rightarrow> string list" where
  "positionals [] = []"
| "positionals (arg # rest) =
     (if arg = ''--repo'' \<or> arg = ''-R'' then positionals (drop 1 rest)
      else if strings_HasPrefix arg ''-'' then positionals rest
      else arg # positionals rest)"


subsection \<open>Sample responses\<close>

text \<open>Concrete responses of the collaborators, used to run the model.\<close>

definition sample_rollup :: "rollup_wire list" where
  "sample_rollup =
     [\<lparr>ru_Name = ''Shellcheck'', ru_Status = ''COMPLETED'', ru_Conclusion = ''FAILURE'',
       ru_DetailsURL = ''https://github.com/o/r/actions/runs/16637926739/job/123'',
       ru_WorkflowName = ''CI'', ru_StartedAt = ''2024-01-01T00:00:00Z'',
       ru_CompletedAt = ''2024-01-01T00:00:06Z''\<rparr>,
      \<lparr>ru_Name = ''Build'', ru_Status = ''COMPLETED'', ru_Conclusion = ''SUCCESS'',
       ru_DetailsURL = ''https://github.com/o/r/actions/runs/16637926740/job/124'',
       ru_WorkflowName = ''CI'', ru_StartedAt = ''2024-01-01T00:00:00Z'',
       ru_CompletedAt = ''2024-01-01T00:01:00Z''\<rparr>,
      \<lparr>ru_Name = ''Deploy preview'', ru_Status = ''COMPLETED'', ru_Conclusion = ''CANCELLED'',
       ru_DetailsURL = ''https://ci.example.com/build/42'',
       ru_WorkflowName = [], ru_StartedAt = [], ru_CompletedAt = []\<rparr>]"

text \<open>
  The \<open>gh\<close> command answers the one call \<open>getStatusChecks\<close> makes for PR 117 of
  \<open>o/r\<close>; \<open>sample_output\<close> stands for the JSON text of \<open>sample_rollup\<close>.
\<close>

definition sample_output :: string where
  "sample_output = ''<statusCheckRollup of PR 117>''"

definition sample_tools :: Tools where
  "sample_tools =
     \<lparr>gh_Output = (\<lambda>args. if args = [''pr'', ''view'', ''117'', ''--repo'', ''o/r'',
                                        ''--json'', ''statusCheckRollup'']
                           then Inr sample_output else Inl ''exit status 1''),
      unmarshal_rollup = (\<lambda>output. if output = sample_output then Inr sample_rollup
                                   else Inl ''invalid character'')\<rparr>"

definition sample_review_comments :: "review_comment_wire list" where
  "sample_review_comments =
     [\<lparr>rc_ID = 1001, rc_Body = ''Consider using a more specific error message here'',
       rc_Path = ''src/main.go'', rc_Line = Some 42, rc_StartLine = None,
       rc_OriginalLine = Some 40, rc_DiffHunk = ''@@ -1 +1 @@'',
       rc_AuthorAssoc = ''MEMBER'', rc_Login = ''reviewer'', rc_InReplyToID = None,
       rc_CreatedAt = ''2024-01-01T00:00:00Z'', rc_UpdatedAt = ''2024-01-01T00:00:00Z'',
       rc_Outdated = False, rc_SubjectType = ''line''\<rparr>,
      \<lparr>rc_ID = 1002, rc_Body = ''Done'',
       rc_Path = ''src/main.go'', rc_Line = Some 42, rc_StartLine = None,
       rc_OriginalLine = Some 40, rc_DiffHunk = ''@@ -1 +1 @@'',
       rc_AuthorAssoc = ''OWNER'', rc_Login = ''author'', rc_InReplyToID = Some 1001,
       rc_CreatedAt = ''2024-01-01T01:00:00Z'', rc_UpdatedAt = ''2024-01-01T01:00:00Z'',
       rc_Outdated = False, rc_SubjectType = ''line''\<rparr>]"

definition sample_issue_comments :: "issue_comment_wire list" where
  "sample_issue_comments =
     [\<lparr>ic_ID = 2001, ic_Body = ''Thanks for the PR'', ic_AuthorAssoc = ''MEMBER'',
       ic_Login = ''reviewer'', ic_CreatedAt = ''2024-01-01T00:00:00Z'',
       ic_UpdatedAt = ''2024-01-01T00:00:00Z''\<rparr>]"

definition sample_reviews :: "review_wire list" where
  "sample_reviews =
     [\<lparr>rv_ID = 3001, rv_Body = ''Please add tests'', rv_State = ''CHANGES_REQUESTED'',
       rv_Login = ''reviewer'', rv_AuthorAssoc = ''MEMBER'',
       rv_SubmittedAt = ''2024-01-01T02:00:00Z''\<rparr>,
      \<lparr>rv_ID = 3002, rv_Body = ''A few notes inline'', rv_State = ''COMMENTED'',
       rv_Login = ''reviewer'', rv_AuthorAssoc = ''MEMBER'',
       rv_SubmittedAt = ''2024-01-01T03:00:00Z''\<rparr>,
      \<lparr>rv_ID = 3003, rv_Body = [], rv_State = ''COMMENTED'',
       rv_Login = ''reviewer'', rv_AuthorAssoc = ''MEMBER'',
       rv_SubmittedAt = ''2024-01-01T04:00:00Z''\<rparr>]"

definition sample_client :: RESTClient where
  "sample_client =
     \<lparr>get_pull = (\<lambda>endpoint. if endpoint = ''repos/o/r/pulls/117''
                  then Inr \<lparr>pw_Number = 117, pw_Title = ''Add certificate management'',
                            pw_HTMLURL = ''https://github.com/o/r/pull/117''\<rparr>
                  else Inl ''HTTP 404''),
      get_review_comments = (\<lambda>endpoint. if endpoint = ''repos/o/r/pulls/117/comments''
                  then Inr sample_review_comments else Inl ''HTTP 404''),
      get_issue_comments = (\<lambda>endpoint. if endpoint = ''repos/o/r/issues/117/comments''
                  then Inr sample_issue_comments else Inl ''HTTP 404''),
      get_reviews = (\<lambda>endpoint. if endpoint = ''repos/o/r/pulls/117/reviews''
                  then Inr sample_reviews else Inl ''HTTP 404'')\<rparr>"

definition failing_tools :: Tools where
  "failing_tools =
     \<lparr>gh_Output = (\<lambda>args. Inl ''exit status 1''),
      unmarshal_rollup = (\<lambda>output. Inr sample_rollup)\<rparr>"

definition failing_client :: RESTClient where
  "failing_client = sample_client\<lparr>get_reviews := (\<lambda>endpoint. Inl ''HTTP 502'')\<rparr>"

definition sample_comment :: ReviewComment where
  "sample_comment =
     \<lparr>ID = 2001, Body = ''Thanks for the PR'', Path = [], Line = None, StartLine = None,
      OriginalLine = None, DiffHunk = [], Author = ''reviewer'', AuthorAssoc = ''MEMBER'',
      State = ''unresolved'', InReplyTo = None, CreatedAt = ''2024-01-01T00:00:00Z'',
      UpdatedAt = ''2024-01-01T00:00:00Z'', Outdated = False, SubjectType = []\<rparr>"


text \<open>
  A sample aggregate with one general comment, the library functions at the strings
  of the sample (\<open>2024-01-01T00:00:00Z\<close> is 1704067200 seconds after the Unix epoch),
  and a clock that starts 30 seconds after that instant and advances by one minute
  between readings.
\<close>

definition sample_feedback :: PRFeedback where
  "sample_feedback =
     \<lparr>PRNumber = 117, Title = ''Add certificate management'',
      URL = ''https://github.com/o/r/pull/117'',
      Comments = [], GeneralIssues = [sample_comment], StatusChecks = []\<rparr>"

definition sample_lib :: GoLib where
  "sample_lib =
     \<lparr>time_Parse = (\<lambda>s. if s = ''2024-01-01T00:00:00Z''
                           then Some (1704067200 * Second) else None),
      strings_ToLower = (\<lambda>s. if s = ''MEMBER'' then ''member'' else s),
      strings_Title = (\<lambda>s. if s = ''member'' then ''Member'' else s)\<rparr>"

definition sample_clock :: "nat \<Rightarrow> int" where
  "sample_clock k = 1704067200 * Second + 30 * Second + int k * Minute"

definition stopped_clock :: "nat \<Rightarrow> int" where
  "stopped_clock k = 1704067200 * Second + 30 * Second"

text \<open>The sample library functions, except that no timestamp parses.\<close>

definition unparsed_lib :: GoLib where
  "unparsed_lib = sample_lib\<lparr>time_Parse := (\<lambda>s. None)\<rparr>"

section \<open>Properties\<close>

subsection \<open>Strings and loops\<close>

lemma collectStatusChecks_eq:
  "collectStatusChecks acc rs =
     acc @ map mkStatusCheck
             (filter (\<lambda>c. ru_Conclusion c = ''FAILURE'' \<or> ru_Conclusion c = ''ERROR''
                          \<or> ru_Conclusion c = ''CANCELLED'') rs)"
  by (induction rs arbitrary: acc) simp_all

lemma collectComments_eq:
  "collectComments acc rs =
     acc @ map (\<lambda>comment. \<lparr>ID = rc_ID comment, Body = rc_Body comment, Path = rc_Path comment,
                     Line = rc_Line comment, StartLine = rc_StartLine comment,
                     OriginalLine = rc_OriginalLine comment, DiffHunk = rc_DiffHunk comment,
                     Author = rc_Login comment, AuthorAssoc = rc_AuthorAssoc comment,
                     State = ''unresolved'', InReplyTo = None,
                     CreatedAt = rc_CreatedAt comment, UpdatedAt = rc_UpdatedAt comment,
                     Outdated = rc_Outdated comment, SubjectType = rc_SubjectType comment\<rparr>)
             (filter (\<lambda>c. rc_InReplyToID c = None) rs)"
  by (induction rs arbitrary: acc) simp_all

lemma strings_HasPrefix_iff: "strings_HasPrefix s p \<longleftrightarrow> (\<exists>ss. s = p @ ss)"
  unfolding strings_HasPrefix_def
  by (metis append_eq_conv_conj append_take_drop_id length_append le_add1)

lemma strings_Contains_iff: "strings_Contains s sub \<longleftrightarrow> (\<exists>ps ss. s = ps @ sub @ ss)"
proof (induction s)
  case Nil
  then show ?case by auto
next
  case (Cons c cs)
  show ?case
  proof
    assume "strings_Contains (c # cs) sub"
    then consider "strings_HasPrefix (c # cs) sub" | "strings_Contains cs sub" by auto
    then show "\<exists>ps ss. c # cs = ps @ sub @ ss"
    proof cases
      case 1
      then obtain ss where "c # cs = sub @ ss" by (auto simp: strings_HasPrefix_iff)
      then have "c # cs = [] @ sub @ ss" by simp
      then show ?thesis by blast
    next
      case 2
      then obtain ps ss where "cs = ps @ sub @ ss" using Cons.IH by blast
      then have "c # cs = (c # ps) @ sub @ ss" by simp
      then show ?thesis by blast
    qed
  next
    assume "\<exists>ps ss. c # cs = ps @ sub @ ss"
    then obtain ps ss where e: "c # cs = ps @ sub @ ss" by blast
    show "strings_Contains (c # cs) sub"
    proof (cases ps)
      case Nil
      with e have "strings_HasPrefix (c # cs) sub" by (auto simp: strings_HasPrefix_iff)
      then show ?thesis by simp
    next
      case (Cons p ps')
      with e have "cs = ps' @ sub @ ss" by simp
      then have "strings_Contains cs sub" using Cons.IH by blast
      then show ?thesis by simp
    qed
  qed
qed

lemma contains_actions_runs:
  "strings_Contains s ''/actions/runs/'' \<Longrightarrow> strings_Contains s ''/runs/''"
proof -
  assume "strings_Contains s ''/actions/runs/''"
  then obtain ps ss where "s = ps @ ''/actions/runs/'' @ ss"
    by (auto simp: strings_Contains_iff)
  then have "s = (ps @ ''/actions'') @ ''/runs/'' @ ss" by simp
  then show ?thesis unfolding strings_Contains_iff by blast
qed

subsection \<open>Status checks kept by \<open>getStatusChecks\<close>\<close>

text \<open>
  Claim C2. When the \<open>gh\<close> call succeeds and its output parses to a rollup,
  \<open>getStatusChecks\<close> returns, in the order of the rollup, exactly the checks whose
  conclusion is \<open>FAILURE\<close>, \<open>ERROR\<close> or \<open>CANCELLED\<close>: every returned check has such a
  conclusion, and every such check of the rollup is returned, with its name, status,
  conclusion and details URL unchanged.
\<close>

theorem getStatusChecks_keeps_exactly_failing:
  assumes "gh_Output sys [''pr'', ''view'', fmt_d prNumber, ''--repo'', repo,
                          ''--json'', ''statusCheckRollup''] = Inr output"
    and "unmarshal_rollup sys output = Inr rollup"
  shows "getStatusChecks sys repo prNumber =
           Inr (map mkStatusCheck
                  (filter (\<lambda>c. ru_Conclusion c \<in> {''FAILURE'', ''ERROR'', ''CANCELLED''}) rollup))
         \<and> (\<forall>checks. getStatusChecks sys repo prNumber = Inr checks \<longrightarrow>
               (\<forall>s \<in> set checks. Conclusion s \<in> {''FAILURE'', ''ERROR'', ''CANCELLED''}))
         \<and> (\<forall>c. Conclusion (mkStatusCheck c) = ru_Conclusion c
                 \<and> Name (mkStatusCheck c) = ru_Name c
                 \<and> Status (mkStatusCheck c) = ru_Status c
                 \<and> DetailsURL (mkStatusCheck c) = ru_DetailsURL c)"
proof -
  have fields: "Conclusion (mkStatusCheck c) = ru_Conclusion c
                 \<and> Name (mkStatusCheck c) = ru_Name c
                 \<and> Status (mkStatusCheck c) = ru_Status c
                 \<and> DetailsURL (mkStatusCheck c) = ru_DetailsURL c" for c
    by (simp add: mkStatusCheck_def Let_def)
  have res: "getStatusChecks sys repo prNumber =
           Inr (map mkStatusCheck
                  (filter (\<lambda>c. ru_Conclusion c \<in> {''FAILURE'', ''ERROR'', ''CANCELLED''}) rollup))"
    using assms by (simp add: getStatusChecks_def collectStatusChecks_eq)
  have "\<forall>s \<in> set (map mkStatusCheck
                  (filter (\<lambda>c. ru_Conclusion c \<in> {''FAILURE'', ''ERROR'', ''CANCELLED''}) rollup)).
          Conclusion s \<in> {''FAILURE'', ''ERROR'', ''CANCELLED''}"
    using fields by auto
  with res fields show ?thesis by simp
qed

text \<open>The sample rollup: a failure, a success and a cancelled check.\<close>

theorem getStatusChecks_keeps_exactly_failing_witness:
  "getStatusChecks sample_tools ''o/r'' 117 =
     Inr [\<lparr>Name = ''Shellcheck'', Status = ''COMPLETED'', Conclusion = ''FAILURE'',
           DetailsURL = ''https://github.com/o/r/actions/runs/16637926739/job/123'',
           WorkflowName = ''CI'', RunID = ''16637926739'',
           StartedAt = ''2024-01-01T00:00:00Z'', CompletedAt = ''2024-01-01T00:00:06Z'',
           CheckCommand = ''gh run view 16637926739''\<rparr>,
          \<lparr>Name = ''Deploy preview'', Status = ''COMPLETED'', Conclusion = ''CANCELLED'',
           DetailsURL = ''https://ci.example.com/build/42'',
           WorkflowName = [], RunID = [], StartedAt = [], CompletedAt = [],
           CheckCommand = []\<rparr>]"
proof -
  have a: "gh_Output sample_tools [''pr'', ''view'', fmt_d 117, ''--repo'', ''o/r'',
                          ''--json'', ''statusCheckRollup''] = Inr sample_output"
    by (simp add: sample_tools_def fmt_d_def decimal.simps)
  have b: "unmarshal_rollup sample_tools sample_output = Inr sample_rollup"
    by (simp add: sample_tools_def)
  show ?thesis
    using getStatusChecks_keeps_exactly_failing [OF a b, THEN conjunct1]
    by (simp add: sample_rollup_def mkStatusCheck_def extractRunID_def strings_HasPrefix_def
        Let_def)
qed

subsection \<open>The collections of the aggregate\<close>

lemma collectIssueComments_eq:
  "collectIssueComments acc rs =
     acc @ map (\<lambda>comment. \<lparr>ID = ic_ID comment, Body = ic_Body comment, Path = [],
                 Line = None, StartLine = None, OriginalLine = None, DiffHunk = [],
                 Author = ic_Login comment, AuthorAssoc = ic_AuthorAssoc comment,
                 State = ''unresolved'', InReplyTo = None,
                 CreatedAt = ic_CreatedAt comment, UpdatedAt = ic_UpdatedAt comment,
                 Outdated = False, SubjectType = []\<rparr>) rs"
  by (induction rs arbitrary: acc) simp_all

lemma collectReviews_eq:
  "collectReviews acc rs =
     acc @ map (\<lambda>review. \<lparr>ID = rv_ID review, Body = rv_Body review, Path = [],
                     Line = None, StartLine = None, OriginalLine = None, DiffHunk = [],
                     Author = rv_Login review, AuthorAssoc = rv_AuthorAssoc review,
                     State = ''unresolved'', InReplyTo = None,
                     CreatedAt = rv_SubmittedAt review, UpdatedAt = rv_SubmittedAt review,
                     Outdated = False, SubjectType = []\<rparr>)
             (filter (\<lambda>r. rv_Body r \<noteq> [] \<and> rv_State r = ''COMMENTED'') rs)"
  by (induction rs arbitrary: acc) simp_all

lemma getPRFeedback_Inr:
  assumes "getPRFeedback client sys repo prNumber = (warn, Inr feedback)"
  obtains pr reviewComments issueComments reviews where
    "get_pull client (''repos/'' @ repo @ ''/pulls/'' @ fmt_d prNumber) = Inr pr"
    "get_review_comments client
       (''repos/'' @ repo @ ''/pulls/'' @ fmt_d prNumber @ ''/comments'') = Inr reviewComments"
    "get_issue_comments client
       (''repos/'' @ repo @ ''/issues/'' @ fmt_d prNumber @ ''/comments'') = Inr issueComments"
    "get_reviews client
       (''repos/'' @ repo @ ''/pulls/'' @ fmt_d prNumber @ ''/reviews'') = Inr reviews"
    "PRNumber feedback = pw_Number pr" "Title feedback = pw_Title pr"
    "URL feedback = pw_HTMLURL pr"
    "Comments feedback = collectComments [] reviewComments"
    "GeneralIssues feedback = collectReviews (collectIssueComments [] issueComments) reviews"
    "StatusChecks feedback =
       (case getStatusChecks sys repo prNumber of Inl e \<Rightarrow> [] | Inr cs \<Rightarrow> cs)"
  using assms unfolding getPRFeedback_def Let_def
  by (auto split: sum.splits)

text \<open>
  Claim C1. When \<open>getPRFeedback\<close> returns an aggregate, its \<open>Comments\<close> are, in the
  order of the response, exactly the review comments whose \<open>in_reply_to_id\<close> is null,
  each with its id, body, path, line fields, diff hunk, author, association,
  timestamps, outdated flag and subject type copied and its state set to
  \<open>unresolved\<close>; no comment of the collection has a reply linkage.
\<close>

theorem anchored_comments_are_the_non_replies:
  assumes "get_review_comments client
             (''repos/'' @ repo @ ''/pulls/'' @ fmt_d prNumber @ ''/comments'')
           = Inr reviewComments"
    and "getPRFeedback client sys repo prNumber = (warn, Inr feedback)"
  shows "Comments feedback =
           map (\<lambda>c. \<lparr>ID = rc_ID c, Body = rc_Body c, Path = rc_Path c,
                     Line = rc_Line c, StartLine = rc_StartLine c,
                     OriginalLine = rc_OriginalLine c, DiffHunk = rc_DiffHunk c,
                     Author = rc_Login c, AuthorAssoc = rc_AuthorAssoc c,
                     State = ''unresolved'', InReplyTo = None,
                     CreatedAt = rc_CreatedAt c, UpdatedAt = rc_UpdatedAt c,
                     Outdated = rc_Outdated c, SubjectType = rc_SubjectType c\<rparr>)
               (filter (\<lambda>c. rc_InReplyToID c = None) reviewComments)
         \<and> (\<forall>c \<in> set (Comments feedback). InReplyTo c = None \<and> State c = ''unresolved'')"
proof -
  from assms(2) obtain rcs where
    "get_review_comments client
       (''repos/'' @ repo @ ''/pulls/'' @ fmt_d prNumber @ ''/comments'') = Inr rcs"
    "Comments feedback = collectComments [] rcs"
    by (rule getPRFeedback_Inr)
  with assms(1) have "Comments feedback = collectComments [] reviewComments" by simp
  then show ?thesis by (auto simp: collectComments_eq)
qed

lemma sample_getPRFeedback:
  "getPRFeedback sample_client sample_tools ''o/r'' 117 =
     ([], Inr \<lparr>PRNumber = 117, Title = ''Add certificate management'',
               URL = ''https://github.com/o/r/pull/117'',
               Comments = collectComments [] sample_review_comments,
               GeneralIssues =
                 collectReviews (collectIssueComments [] sample_issue_comments) sample_reviews,
               StatusChecks = collectStatusChecks [] sample_rollup\<rparr>)"
  by (simp add: getPRFeedback_def getStatusChecks_def sample_client_def sample_tools_def
      fmt_d_def decimal.simps)

theorem anchored_comments_are_the_non_replies_witness:
  "Comments (projr (snd (getPRFeedback sample_client sample_tools ''o/r'' 117))) =
     [\<lparr>ID = 1001, Body = ''Consider using a more specific error message here'',
       Path = ''src/main.go'', Line = Some 42, StartLine = None, OriginalLine = Some 40,
       DiffHunk = ''@@ -1 +1 @@'', Author = ''reviewer'', AuthorAssoc = ''MEMBER'',
       State = ''unresolved'', InReplyTo = None,
       CreatedAt = ''2024-01-01T00:00:00Z'', UpdatedAt = ''2024-01-01T00:00:00Z'',
       Outdated = False, SubjectType = ''line''\<rparr>]"
proof -
  have a: "get_review_comments sample_client
             (''repos/'' @ ''o/r'' @ ''/pulls/'' @ fmt_d 117 @ ''/comments'')
           = Inr sample_review_comments"
    by (simp add: sample_client_def fmt_d_def decimal.simps)
  show ?thesis
    using anchored_comments_are_the_non_replies [OF a sample_getPRFeedback, THEN conjunct1]
    by (simp add: sample_getPRFeedback sample_review_comments_def)
qed

text \<open>
  Claim C7. The general comments of the aggregate are all the issue comments, followed
  by exactly the reviews whose body is not empty and whose state is \<open>COMMENTED\<close>;
  a review in any other state is dropped, whatever its body.
\<close>

theorem general_issues_keep_commented_reviews:
  assumes "get_issue_comments client
             (''repos/'' @ repo @ ''/issues/'' @ fmt_d prNumber @ ''/comments'')
           = Inr issueComments"
    and "get_reviews client
             (''repos/'' @ repo @ ''/pulls/'' @ fmt_d prNumber @ ''/reviews'') = Inr reviews"
    and "getPRFeedback client sys repo prNumber = (warn, Inr feedback)"
  shows "GeneralIssues feedback =
           map (\<lambda>c. \<lparr>ID = ic_ID c, Body = ic_Body c, Path = [],
                     Line = None, StartLine = None, OriginalLine = None, DiffHunk = [],
                     Author = ic_Login c, AuthorAssoc = ic_AuthorAssoc c,
                     State = ''unresolved'', InReplyTo = None,
                     CreatedAt = ic_CreatedAt c, UpdatedAt = ic_UpdatedAt c,
                     Outdated = False, SubjectType = []\<rparr>) issueComments
           @ map (\<lambda>r. \<lparr>ID = rv_ID r, Body = rv_Body r, Path = [],
                     Line = None, StartLine = None, OriginalLine = None, DiffHunk = [],
                     Author = rv_Login r, AuthorAssoc = rv_AuthorAssoc r,
                     State = ''unresolved'', InReplyTo = None,
                     CreatedAt = rv_SubmittedAt r, UpdatedAt = rv_SubmittedAt r,
                     Outdated = False, SubjectType = []\<rparr>)
               (filter (\<lambda>r. rv_Body r \<noteq> [] \<and> rv_State r = ''COMMENTED'') reviews)"
proof -
  from assms(3) obtain ics rvs where
    "get_issue_comments client
       (''repos/'' @ repo @ ''/issues/'' @ fmt_d prNumber @ ''/comments'') = Inr ics"
    "get_reviews client
       (''repos/'' @ repo @ ''/pulls/'' @ fmt_d prNumber @ ''/reviews'') = Inr rvs"
    "GeneralIssues feedback = collectReviews (collectIssueComments [] ics) rvs"
    by (rule getPRFeedback_Inr)
  with assms(1,2) have
    "GeneralIssues feedback = collectReviews (collectIssueComments [] issueComments) reviews"
    by simp
  then show ?thesis by (simp add: collectReviews_eq collectIssueComments_eq)
qed

theorem general_issues_keep_commented_reviews_witness:
  "map (\<lambda>c. (ID c, Body c)) 
     (GeneralIssues (projr (snd (getPRFeedback sample_client sample_tools ''o/r'' 117)))) =
     [(2001, ''Thanks for the PR''), (3002, ''A few notes inline'')]"
proof -
  have a: "get_issue_comments sample_client
             (''repos/'' @ ''o/r'' @ ''/issues/'' @ fmt_d 117 @ ''/comments'')
           = Inr sample_issue_comments"
    by (simp add: sample_client_def fmt_d_def decimal.simps)
  have b: "get_reviews sample_client
             (''repos/'' @ ''o/r'' @ ''/pulls/'' @ fmt_d 117 @ ''/reviews'')
           = Inr sample_reviews"
    by (simp add: sample_client_def fmt_d_def decimal.simps)
  show ?thesis
    using general_issues_keep_commented_reviews [OF a b sample_getPRFeedback]
    by (simp add: sample_getPRFeedback sample_issue_comments_def sample_reviews_def)
qed

text \<open>
  Claim C8. When \<open>getStatusChecks\<close> fails and the four REST fetches succeed,
  \<open>getPRFeedback\<close> writes a warning to standard error and returns an aggregate with
  no status checks. When one of the four REST fetches fails, it returns an error and
  no aggregate, and writes nothing.
\<close>

theorem rollup_failure_is_a_warning_rest_failure_is_fatal:
  "(getStatusChecks sys repo prNumber = Inl e
      \<and> get_pull client (''repos/'' @ repo @ ''/pulls/'' @ fmt_d prNumber) = Inr pr
      \<and> get_review_comments client
           (''repos/'' @ repo @ ''/pulls/'' @ fmt_d prNumber @ ''/comments'') = Inr rcs
      \<and> get_issue_comments client
           (''repos/'' @ repo @ ''/issues/'' @ fmt_d prNumber @ ''/comments'') = Inr ics
      \<and> get_reviews client
           (''repos/'' @ repo @ ''/pulls/'' @ fmt_d prNumber @ ''/reviews'') = Inr rvs
    \<longrightarrow> (\<exists>feedback. getPRFeedback client sys repo prNumber =
           (''Warning: failed to fetch status checks: '' @ e @ [CHR 0x0A], Inr feedback)
         \<and> StatusChecks feedback = []))
   \<and> (isl (get_pull client (''repos/'' @ repo @ ''/pulls/'' @ fmt_d prNumber))
      \<or> isl (get_review_comments client
                (''repos/'' @ repo @ ''/pulls/'' @ fmt_d prNumber @ ''/comments''))
      \<or> isl (get_issue_comments client
                (''repos/'' @ repo @ ''/issues/'' @ fmt_d prNumber @ ''/comments''))
      \<or> isl (get_reviews client
                (''repos/'' @ repo @ ''/pulls/'' @ fmt_d prNumber @ ''/reviews''))
    \<longrightarrow> (\<exists>msg. getPRFeedback client sys repo prNumber = ([], Inl msg)))"
  unfolding getPRFeedback_def Let_def
  by (auto split: sum.splits simp: isl_def)

text \<open>\<open>getStatusChecks\<close> fails when the \<open>gh\<close> call fails or its output does not parse.\<close>

lemma getStatusChecks_fails_iff:
  "(\<exists>e. getStatusChecks sys repo prNumber = Inl e) \<longleftrightarrow>
     (isl (gh_Output sys [''pr'', ''view'', fmt_d prNumber, ''--repo'', repo,
                          ''--json'', ''statusCheckRollup''])
      \<or> (\<exists>output. gh_Output sys [''pr'', ''view'', fmt_d prNumber, ''--repo'', repo,
                          ''--json'', ''statusCheckRollup''] = Inr output
            \<and> isl (unmarshal_rollup sys output)))"
  unfolding getStatusChecks_def
  by (auto split: sum.splits simp: isl_def)

theorem rollup_failure_is_a_warning_rest_failure_is_fatal_witness:
  "getPRFeedback sample_client failing_tools ''o/r'' 117 =
     (''Warning: failed to fetch status checks: failed to get status checks: exit status 1''
        @ [CHR 0x0A],
      Inr \<lparr>PRNumber = 117, Title = ''Add certificate management'',
           URL = ''https://github.com/o/r/pull/117'',
           Comments = collectComments [] sample_review_comments,
           GeneralIssues =
             collectReviews (collectIssueComments [] sample_issue_comments) sample_reviews,
           StatusChecks = []\<rparr>)
   \<and> getPRFeedback failing_client sample_tools ''o/r'' 117 =
       ([], Inl ''failed to fetch reviews: HTTP 502'')"
  using rollup_failure_is_a_warning_rest_failure_is_fatal
          [of failing_tools "''o/r''" 117 "''failed to get status checks: exit status 1''"
              sample_client]
        rollup_failure_is_a_warning_rest_failure_is_fatal
          [of sample_tools "''o/r''" 117 "[]" failing_client]
  by (simp add: getPRFeedback_def getStatusChecks_def sample_client_def failing_tools_def
      failing_client_def sample_tools_def fmt_d_def decimal.simps)

subsection \<open>Run identifiers and follow-up commands\<close>

lemma mkStatusCheck_RunID:
  "RunID (mkStatusCheck c) =
     (if strings_Contains (ru_DetailsURL c) ''/actions/runs/''
      then extractRunID (ru_DetailsURL c) else [])"
  by (simp add: mkStatusCheck_def Let_def)

lemma mkStatusCheck_CheckCommand:
  "CheckCommand (mkStatusCheck c) =
     (if strings_Contains (ru_DetailsURL c) ''/actions/runs/''
         \<and> extractRunID (ru_DetailsURL c) \<noteq> []
      then ''gh run view '' @ extractRunID (ru_DetailsURL c) else [])"
  by (simp add: mkStatusCheck_def Let_def)

lemma mkStatusCheck_DetailsURL: "DetailsURL (mkStatusCheck c) = ru_DetailsURL c"
  by (simp add: mkStatusCheck_def Let_def)

lemma getStatusChecks_elem:
  assumes "getStatusChecks sys repo prNumber = Inr checks" and "s \<in> set checks"
  obtains c where "s = mkStatusCheck c"
  using assms unfolding getStatusChecks_def
  by (auto split: sum.splits simp: collectStatusChecks_eq)

lemma sample_getStatusChecks:
  "getStatusChecks sample_tools ''o/r'' 117 =
     Inr [\<lparr>Name = ''Shellcheck'', Status = ''COMPLETED'', Conclusion = ''FAILURE'',
           DetailsURL = ''https://github.com/o/r/actions/runs/16637926739/job/123'',
           WorkflowName = ''CI'', RunID = ''16637926739'',
           StartedAt = ''2024-01-01T00:00:00Z'', CompletedAt = ''2024-01-01T00:00:06Z'',
           CheckCommand = ''gh run view 16637926739''\<rparr>,
          \<lparr>Name = ''Deploy preview'', Status = ''COMPLETED'', Conclusion = ''CANCELLED'',
           DetailsURL = ''https://ci.example.com/build/42'',
           WorkflowName = [], RunID = [], StartedAt = [], CompletedAt = [],
           CheckCommand = []\<rparr>]"
  by (simp add: getStatusChecks_def sample_tools_def sample_rollup_def mkStatusCheck_def
      extractRunID_def strings_HasPrefix_def fmt_d_def decimal.simps Let_def)

text \<open>
  On its own \<open>extractRunID\<close> needs no slash before \<open>runs\<close>; it is the test for
  \<open>/actions/runs/\<close> in \<open>getStatusChecks\<close> that keeps such a URL without a run
  identifier.
\<close>

lemma extractRunID_without_slash: "extractRunID ''runs/5'' = ''5''"
  by (simp add: extractRunID_def)

text \<open>
  Claim C6. \<open>extractRunID\<close> of
  \<open>https://github.com/o/r/actions/runs/16637926739/job/123\<close> is \<open>16637926739\<close>, and a
  check returned by \<open>getStatusChecks\<close> with that details URL has the check command
  \<open>gh run view 16637926739\<close>; a returned check whose details URL does not contain
  \<open>/runs/\<close> has no run identifier and no check command.
\<close>

theorem extractRunID_example_and_no_runs_segment:
  assumes "getStatusChecks sys repo prNumber = Inr checks" and "s \<in> set checks"
  shows "extractRunID ''https://github.com/o/r/actions/runs/16637926739/job/123''
           = ''16637926739''
         \<and> (DetailsURL s = ''https://github.com/o/r/actions/runs/16637926739/job/123''
              \<longrightarrow> RunID s = ''16637926739''
                  \<and> CheckCommand s = ''gh run view 16637926739'')
         \<and> (\<not> strings_Contains (DetailsURL s) ''/runs/''
              \<longrightarrow> RunID s = [] \<and> CheckCommand s = [])"
proof -
  from assms obtain c where s: "s = mkStatusCheck c" by (rule getStatusChecks_elem)
  have ex: "extractRunID ''https://github.com/o/r/actions/runs/16637926739/job/123''
              = ''16637926739''"
    by (simp add: extractRunID_def)
  have ct: "strings_Contains ''https://github.com/o/r/actions/runs/16637926739/job/123''
              ''/actions/runs/''"
    by (simp add: strings_HasPrefix_def)
  have a: "DetailsURL s = ''https://github.com/o/r/actions/runs/16637926739/job/123''
              \<longrightarrow> RunID s = ''16637926739''
                  \<and> CheckCommand s = ''gh run view 16637926739''"
    unfolding s mkStatusCheck_RunID mkStatusCheck_CheckCommand mkStatusCheck_DetailsURL
    using ex ct by simp
  have b: "\<not> strings_Contains (DetailsURL s) ''/runs/''
              \<longrightarrow> RunID s = [] \<and> CheckCommand s = []"
    unfolding s mkStatusCheck_RunID mkStatusCheck_CheckCommand mkStatusCheck_DetailsURL
    using contains_actions_runs by auto
  from ex a b show ?thesis by blast
qed

theorem extractRunID_example_and_no_runs_segment_witness:
  "(let checks = projr (getStatusChecks sample_tools ''o/r'' 117)
    in DetailsURL (checks ! 0) = ''https://github.com/o/r/actions/runs/16637926739/job/123''
       \<and> RunID (checks ! 0) = ''16637926739''
       \<and> CheckCommand (checks ! 0) = ''gh run view 16637926739''
       \<and> \<not> strings_Contains (DetailsURL (checks ! 1)) ''/runs/''
       \<and> RunID (checks ! 1) = [] \<and> CheckCommand (checks ! 1) = [])"
proof -
  let ?checks = "projr (getStatusChecks sample_tools ''o/r'' 117)"
  have e: "getStatusChecks sample_tools ''o/r'' 117 = Inr ?checks"
    by (simp add: sample_getStatusChecks)
  have m0: "?checks ! 0 \<in> set ?checks" and m1: "?checks ! 1 \<in> set ?checks"
    by (simp_all add: sample_getStatusChecks)
  have u0: "DetailsURL (?checks ! 0)
              = ''https://github.com/o/r/actions/runs/16637926739/job/123''"
    by (simp add: sample_getStatusChecks)
  have u1: "\<not> strings_Contains (DetailsURL (?checks ! 1)) ''/runs/''"
    by (simp add: sample_getStatusChecks strings_HasPrefix_def)
  show ?thesis
    using extractRunID_example_and_no_runs_segment [OF e m0]
          extractRunID_example_and_no_runs_segment [OF e m1] u0 u1
    by (simp add: Let_def)
qed

text \<open>
  Claim C10. For every check returned by \<open>getStatusChecks\<close>, \<open>RunID\<close> is non-empty
  if and only if \<open>CheckCommand\<close> is, and then \<open>CheckCommand\<close> is \<open>gh run view\<close>
  followed by a space and \<open>RunID\<close>; both are empty when the details URL does not
  contain \<open>/actions/runs/\<close> or \<open>extractRunID\<close> returns the empty string.
\<close>

theorem runID_present_iff_checkCommand_present:
  assumes "getStatusChecks sys repo prNumber = Inr checks" and "s \<in> set checks"
  shows "(RunID s \<noteq> [] \<longleftrightarrow> CheckCommand s \<noteq> [])
         \<and> (RunID s \<noteq> [] \<longrightarrow> CheckCommand s = ''gh run view '' @ RunID s)
         \<and> (\<not> strings_Contains (DetailsURL s) ''/actions/runs/''
              \<or> extractRunID (DetailsURL s) = []
              \<longrightarrow> RunID s = [] \<and> CheckCommand s = [])"
proof -
  from assms obtain c where s: "s = mkStatusCheck c" by (rule getStatusChecks_elem)
  show ?thesis
    unfolding s mkStatusCheck_RunID mkStatusCheck_CheckCommand mkStatusCheck_DetailsURL
    by auto
qed

theorem runID_present_iff_checkCommand_present_witness:
  "(let checks = projr (getStatusChecks sample_tools ''o/r'' 117)
    in RunID (checks ! 0) = ''16637926739''
       \<and> CheckCommand (checks ! 0) = ''gh run view '' @ RunID (checks ! 0)
       \<and> \<not> strings_Contains (DetailsURL (checks ! 1)) ''/actions/runs/''
       \<and> RunID (checks ! 1) = [] \<and> CheckCommand (checks ! 1) = [])"
proof -
  let ?checks = "projr (getStatusChecks sample_tools ''o/r'' 117)"
  have e: "getStatusChecks sample_tools ''o/r'' 117 = Inr ?checks"
    by (simp add: sample_getStatusChecks)
  have m0: "?checks ! 0 \<in> set ?checks" and m1: "?checks ! 1 \<in> set ?checks"
    by (simp_all add: sample_getStatusChecks)
  have r0: "RunID (?checks ! 0) = ''16637926739''"
    by (simp add: sample_getStatusChecks)
  have u1: "\<not> strings_Contains (DetailsURL (?checks ! 1)) ''/actions/runs/''"
    by (simp add: sample_getStatusChecks strings_HasPrefix_def)
  show ?thesis
    using runID_present_iff_checkCommand_present [OF e m0]
          runID_present_iff_checkCommand_present [OF e m1] r0 u1
    by (simp add: Let_def)
qed

subsection \<open>Fields of the structured report\<close>

lemma map_of_omitempty_string [simp]:
  "map_of (omitempty_string key s @ rest) k =
     (if k = key \<and> s \<noteq> [] then Some (JString s) else map_of rest k)"
  by (simp add: omitempty_string_def)

lemma map_of_omitempty_string_last [simp]:
  "map_of (omitempty_string key s) k =
     (if k = key \<and> s \<noteq> [] then Some (JString s) else None)"
  by (simp add: omitempty_string_def)

lemma map_of_omitempty_bool [simp]:
  "map_of (omitempty_bool key b @ rest) k =
     (if k = key \<and> b then Some (JBool True) else map_of rest k)"
  by (simp add: omitempty_bool_def)

lemma map_of_omitempty_ptr [simp]:
  "map_of (omitempty_ptr key p @ rest) k =
     (if k = key \<and> p \<noteq> None then Some (JInt (the p)) else map_of rest k)"
  by (auto simp add: omitempty_ptr_def split: option.splits)

lemma ReviewComment_fields_alt:
  "ReviewComment_fields c =
     (''id'', JInt (ID c)) # (''body'', JString (Body c)) # (''path'', JString (Path c))
     # (''line'', json_ptr (Line c)) # (''start_line'', json_ptr (StartLine c))
     # (omitempty_ptr ''original_line'' (OriginalLine c)
     @ (omitempty_string ''diff_hunk'' (DiffHunk c)
     @ ((''author'', JString (Author c))
     # (omitempty_string ''author_association'' (AuthorAssoc c)
     @ ((''state'', JString (State c)) # (''in_reply_to_id'', json_ptr (InReplyTo c))
     # (''created_at'', JString (CreatedAt c)) # (''updated_at'', JString (UpdatedAt c))
     # (omitempty_bool ''outdated'' (Outdated c)
     @ (omitempty_string ''subject_type'' (SubjectType c) @ [])))))))"
  by (simp add: ReviewComment_fields_def)

text \<open>
  Against claim C4 as stated: for a comment without an original line, the document has
  no \<open>original_line\<close> field at all, rather than one with the value \<open>null\<close>.
\<close>

theorem original_line_is_omitted_not_null:
  "map_of (ReviewComment_fields sample_comment) ''original_line'' = None
   \<and> ''original_line'' \<notin> fst ` set (ReviewComment_fields sample_comment)
   \<and> OriginalLine sample_comment = None"
  by (simp add: ReviewComment_fields_def sample_comment_def omitempty_ptr_def
      omitempty_string_def omitempty_bool_def)

text \<open>
  Claim C4, amended. In the document of a comment, \<open>line\<close>, \<open>start_line\<close> and
  \<open>in_reply_to_id\<close> are always present, \<open>null\<close> when absent and the integer otherwise;
  \<open>original_line\<close> is present exactly when the comment has one; \<open>diff_hunk\<close>,
  \<open>author_association\<close> and \<open>subject_type\<close> are present exactly when not empty, and
  \<open>outdated\<close> exactly when true. No field name occurs twice.
\<close>

theorem comment_nullable_and_omitted_fields:
  "map_of (ReviewComment_fields c) ''line''
     = Some (case Line c of None \<Rightarrow> JNull | Some n \<Rightarrow> JInt n)
   \<and> map_of (ReviewComment_fields c) ''start_line''
     = Some (case StartLine c of None \<Rightarrow> JNull | Some n \<Rightarrow> JInt n)
   \<and> map_of (ReviewComment_fields c) ''in_reply_to_id''
     = Some (case InReplyTo c of None \<Rightarrow> JNull | Some n \<Rightarrow> JInt n)
   \<and> map_of (ReviewComment_fields c) ''original_line''
     = (case OriginalLine c of None \<Rightarrow> None | Some n \<Rightarrow> Some (JInt n))
   \<and> map_of (ReviewComment_fields c) ''diff_hunk''
     = (if DiffHunk c = [] then None else Some (JString (DiffHunk c)))
   \<and> map_of (ReviewComment_fields c) ''author_association''
     = (if AuthorAssoc c = [] then None else Some (JString (AuthorAssoc c)))
   \<and> map_of (ReviewComment_fields c) ''subject_type''
     = (if SubjectType c = [] then None else Some (JString (SubjectType c)))
   \<and> map_of (ReviewComment_fields c) ''outdated''
     = (if Outdated c then Some (JBool True) else None)
   \<and> distinct (map fst (ReviewComment_fields c))"
proof -
  have d: "distinct (map fst (ReviewComment_fields c))"
    by (simp add: ReviewComment_fields_def omitempty_ptr_def omitempty_string_def
        omitempty_bool_def split: option.splits)
  have m1: "map_of (ReviewComment_fields c) ''line''
               = Some (case Line c of None \<Rightarrow> JNull | Some n \<Rightarrow> JInt n)"
    and m2: "map_of (ReviewComment_fields c) ''start_line''
               = Some (case StartLine c of None \<Rightarrow> JNull | Some n \<Rightarrow> JInt n)"
    and m3: "map_of (ReviewComment_fields c) ''in_reply_to_id''
               = Some (case InReplyTo c of None \<Rightarrow> JNull | Some n \<Rightarrow> JInt n)"
    and m5: "map_of (ReviewComment_fields c) ''diff_hunk''
               = (if DiffHunk c = [] then None else Some (JString (DiffHunk c)))"
    and m6: "map_of (ReviewComment_fields c) ''author_association''
               = (if AuthorAssoc c = [] then None else Some (JString (AuthorAssoc c)))"
    and m7: "map_of (ReviewComment_fields c) ''subject_type''
               = (if SubjectType c = [] then None else Some (JString (SubjectType c)))"
    and m8: "map_of (ReviewComment_fields c) ''outdated''
               = (if Outdated c then Some (JBool True) else None)"
    unfolding ReviewComment_fields_alt
    by (simp_all del: map_of_append add: json_ptr_def)
  have m4: "map_of (ReviewComment_fields c) ''original_line''
               = (case OriginalLine c of None \<Rightarrow> None | Some n \<Rightarrow> Some (JInt n))"
    unfolding ReviewComment_fields_alt
    by (cases "OriginalLine c") (simp_all del: map_of_append)
  from m1 m2 m3 m4 m5 m6 m7 m8 d show ?thesis by blast
qed

subsection \<open>Positional arguments\<close>

lemma positiveNumber_1: "positiveNumber ''1'' = Some 1"
  by (simp add: positiveNumber_def strconv_Atoi_def digit_of_def)

lemma positiveNumber_2: "positiveNumber ''2'' = Some 2"
  by (simp add: positiveNumber_def strconv_Atoi_def digit_of_def)

lemma positiveNumber_117: "positiveNumber ''117'' = Some 117"
  by (simp add: positiveNumber_def strconv_Atoi_def digit_of_def)

lemma positiveNumber_dir: "positiveNumber ''/path/to/repo'' = None" "positiveNumber ''other'' = None"
  by (simp_all add: positiveNumber_def strconv_Atoi_def digit_of_def)

text \<open>
  Against claim C5 as stated: of the two numbers \<open>1\<close> and \<open>2\<close>, the PR number is the
  second.
\<close>

theorem first_number_does_not_win:
  "parseArgs (\<lambda>dir. False) initialOptions [''1'', ''2'']
     = Parsed (initialOptions\<lparr>opt_prNumber := 2\<rparr>)
   \<and> opt_prNumber (initialOptions\<lparr>opt_prNumber := 2\<rparr>) \<noteq> 1"
  by (simp add: strings_HasPrefix_def positiveNumber_1 positiveNumber_2 initialOptions_def)



text \<open>The ways the loop gets past an argument.\<close>

lemma parseArgs_Cons_cases:
  assumes "parseArgs notExist opts (arg # rest) = Parsed res"
  obtains
    (json) "parseArgs notExist (opts\<lparr>opt_jsonOutput := True\<rparr>) rest = Parsed res"
      "positionals (arg # rest) = positionals rest"
  | (repo) v rest' where "rest = v # rest'"
      "parseArgs notExist (opts\<lparr>opt_repoName := v\<rparr>) rest' = Parsed res"
      "positionals (arg # rest) = positionals rest'"
  | (num) n where "positiveNumber arg = Some n"
      "parseArgs notExist (opts\<lparr>opt_prNumber := n\<rparr>) rest = Parsed res"
      "positionals (arg # rest) = arg # positionals rest"
  | (dir) "positiveNumber arg = None" "opt_targetDir opts = []"
      "parseArgs notExist (opts\<lparr>opt_targetDir := arg\<rparr>) rest = Parsed res"
      "positionals (arg # rest) = arg # positionals rest"
  | (dir_skip) "positiveNumber arg = None" "opt_targetDir opts \<noteq> []"
      "parseArgs notExist opts rest = Parsed res"
      "positionals (arg # rest) = arg # positionals rest"
  | (flag) "parseArgs notExist opts rest = Parsed res"
      "positionals (arg # rest) = positionals rest"
proof -
  have nv: "\<not> (arg = ''--version'' \<or> arg = ''-v'')"
    using assms by (auto simp del: parseArgs.simps simp add: parseArgs.simps(2)[of notExist opts])
  have nh: "\<not> (arg = ''--help'' \<or> arg = ''-h'')"
    using assms nv by (auto simp del: parseArgs.simps simp add: parseArgs.simps(2)[of notExist opts])
  show thesis
  proof (cases "arg = ''--json'' \<or> arg = ''-j''")
    case True
    have p: "parseArgs notExist (opts\<lparr>opt_jsonOutput := True\<rparr>) rest = Parsed res"
      using assms nv nh True by (simp only: parseArgs.simps(2) if_True if_False)
    have q: "positionals (arg # rest) = positionals rest"
      using True by (auto simp: strings_HasPrefix_def)
    from p q show thesis by (rule json)
  next
    case nj: False
    show thesis
    proof (cases "arg = ''--repo'' \<or> arg = ''-R''")
      case True
      have e: "(case rest of [] \<Rightarrow> RepoRequiresValue
                | v # rest' \<Rightarrow> parseArgs notExist (opts\<lparr>opt_repoName := v\<rparr>) rest')
               = Parsed res"
        using assms nv nh nj True by (simp only: parseArgs.simps(2) if_True if_False)
      then obtain v rest' where r: "rest = v # rest'"
        and p: "parseArgs notExist (opts\<lparr>opt_repoName := v\<rparr>) rest' = Parsed res"
        by (cases rest) simp_all
      have q: "positionals (arg # rest) = positionals rest'"
        using True r by (simp only: positionals.simps if_True drop_Suc_Cons drop_0 One_nat_def)
      from r p q show thesis by (rule repo)
    next
      case nr: False
      show thesis
      proof (cases "strings_HasPrefix arg ''-''")
        case True
        have p: "parseArgs notExist opts rest = Parsed res"
          using assms nv nh nj nr True
          by (simp only: parseArgs.simps(2) if_True if_False not_True_eq_False)
        have q: "positionals (arg # rest) = positionals rest"
          using nr True by (simp only: positionals.simps if_True if_False)
        from p q show thesis by (rule flag)
      next
        case pos: False
        have q: "positionals (arg # rest) = arg # positionals rest"
          using nr pos by (simp only: positionals.simps if_True if_False)
        have e: "(case positiveNumber arg of
                    Some num \<Rightarrow> parseArgs notExist (opts\<lparr>opt_prNumber := num\<rparr>) rest
                  | None \<Rightarrow>
                      if opt_targetDir opts = []
                      then (if notExist arg then DirectoryDoesNotExist arg
                            else parseArgs notExist (opts\<lparr>opt_targetDir := arg\<rparr>) rest)
                      else parseArgs notExist opts rest) = Parsed res"
          using assms nv nh nj nr pos
          by (simp only: parseArgs.simps(2) if_True if_False not_False_eq_True)
        show thesis
        proof (cases "positiveNumber arg")
          case (Some n)
          with e have "parseArgs notExist (opts\<lparr>opt_prNumber := n\<rparr>) rest = Parsed res"
            by simp
          from Some this q show thesis by (rule num)
        next
          case None
          show thesis
          proof (cases "opt_targetDir opts = []")
            case True
            with e None
            have "parseArgs notExist (opts\<lparr>opt_targetDir := arg\<rparr>) rest = Parsed res"
              by (simp split: if_splits)
            from None True this q show thesis by (rule dir)
          next
            case False
            with e None have "parseArgs notExist opts rest = Parsed res" by simp
            from None False this q show thesis by (rule dir_skip)
          qed
        qed
      qed
    qed
  qed
qed


text \<open>
  Claim C5, amended. When the loop runs to its end, the PR number is the last
  positional argument that is a positive integer (the initial value when there is
  none), and the directory is the first positional argument that is not one (and is
  not empty), later ones being ignored.
\<close>

theorem last_number_and_first_directory_win:
  assumes "parseArgs notExist opts args = Parsed res"
  shows "opt_prNumber res
           = last (opt_prNumber opts # List.map_filter positiveNumber (positionals args))
         \<and> opt_targetDir res
           = (if opt_targetDir opts \<noteq> [] then opt_targetDir opts
              else (case filter (\<lambda>a. positiveNumber a = None \<and> a \<noteq> []) (positionals args) of
                      [] \<Rightarrow> []
                    | dir # _ \<Rightarrow> dir))"
  using assms
proof (induction args arbitrary: opts rule: length_induct)
  case (1 args)
  show ?case
  proof (cases args)
    case Nil
    with "1.prems" show ?thesis by simp
  next
    case (Cons arg rest)
    with "1.prems" have p: "parseArgs notExist opts (arg # rest) = Parsed res" by simp
    have IH: "parseArgs notExist opts' args' = Parsed res \<Longrightarrow> length args' < length args \<Longrightarrow>
      opt_prNumber res
           = last (opt_prNumber opts' # List.map_filter positiveNumber (positionals args'))
         \<and> opt_targetDir res
           = (if opt_targetDir opts' \<noteq> [] then opt_targetDir opts'
              else (case filter (\<lambda>a. positiveNumber a = None \<and> a \<noteq> []) (positionals args') of
                      [] \<Rightarrow> []
                    | dir # _ \<Rightarrow> dir))" for opts' args'
      using "1.IH" by blast
    from p show ?thesis
    proof (cases rule: parseArgs_Cons_cases)
      case json
      from IH[OF json(1)] Cons json(2) show ?thesis by simp
    next
      case (repo v rest')
      from IH[OF repo(2)] Cons repo(1,3) show ?thesis by simp
    next
      case (num n)
      from IH[OF num(2)] Cons num(1,3) show ?thesis by simp
    next
      case dir
      from IH[OF dir(3)] Cons dir(1,2,4) show ?thesis
        by (cases "arg = []") simp_all
    next
      case dir_skip
      from IH[OF dir_skip(3)] Cons dir_skip(1,2,4) show ?thesis
        by simp
    next
      case flag
      from IH[OF flag(1)] Cons flag(2) show ?thesis by simp
    qed
  qed
qed

theorem last_number_and_first_directory_win_witness:
  "parseArgs (\<lambda>dir. False) initialOptions
     [''/path/to/repo'', ''1'', ''--repo'', ''117'', ''other'', ''2'', ''--json'']
   = Parsed \<lparr>opt_jsonOutput = True, opt_targetDir = ''/path/to/repo'', opt_prNumber = 2,
             opt_repoName = ''117''\<rparr>"
proof -
  have e: "parseArgs (\<lambda>dir. False) initialOptions
     [''/path/to/repo'', ''1'', ''--repo'', ''117'', ''other'', ''2'', ''--json'']
   = Parsed \<lparr>opt_jsonOutput = True, opt_targetDir = ''/path/to/repo'', opt_prNumber = 2,
             opt_repoName = ''117''\<rparr>"
    by (simp add: strings_HasPrefix_def positiveNumber_1 positiveNumber_2 positiveNumber_dir
        initialOptions_def)
  from last_number_and_first_directory_win [OF e] e show ?thesis by simp
qed

subsection \<open>float64 rounding and the buckets of \<open>formatTimeAgo\<close>\<close>

text \<open>Powers of two, the binary logarithm and rounding to the nearest integer.\<close>

lemma pow2_pos [simp]: "0 < pow2 e"
  by (simp add: pow2_def)

lemma pow2_powi: "pow2 e = 2 powi e"
  by (simp add: pow2_def power_int_def power_one_over)

lemma pow2_add: "pow2 (a + b) = pow2 a * pow2 b"
  by (simp add: pow2_powi power_int_add)

lemma pow2_nonneg_exp: "0 \<le> e \<Longrightarrow> pow2 e = of_int (2 ^ nat e)"
  by (simp add: pow2_def)

lemma pow2_multiple:
  assumes "e' \<le> e"
  shows "pow2 e = of_int (2 ^ nat (e - e')) * pow2 e'"
proof -
  have "pow2 e = pow2 ((e - e') + e')" by simp
  also have "\<dots> = pow2 (e - e') * pow2 e'" by (rule pow2_add)
  also have "pow2 (e - e') = of_int (2 ^ nat (e - e'))"
    using assms by (simp add: pow2_nonneg_exp)
  finally show ?thesis .
qed

lemma pow2_le_one:
  assumes "e \<le> 0"
  shows "pow2 e \<le> 1"
proof (cases "e = 0")
  case True
  then show ?thesis by (simp add: pow2_def)
next
  case False
  have "(1::rat) \<le> 2 ^ nat (- e)" by (rule one_le_power) simp
  with False assms show ?thesis by (simp add: pow2_def)
qed

text \<open>\<open>ilog2\<close> is the integer part of the binary logarithm.\<close>

lemma ilog2_bounds:
  assumes "0 < x"
  shows "pow2 (ilog2 x) \<le> x \<and> x < pow2 (ilog2 x + 1)"
proof (cases "1 \<le> x")
  case True
  define n where "n = \<lfloor>x\<rfloor>"
  have n1: "1 \<le> n" using True by (simp add: n_def le_floor_iff)
  then have npos: "0 < n" by simp
  have b1: "1 \<le> bitlen n" using n1 by (simp add: bitlen_ge_iff_power)
  from bitlen_bounds[OF npos]
  have lo: "2 ^ nat (bitlen n - 1) \<le> n" and hi: "n < 2 ^ nat (bitlen n)" by simp_all
  have il: "ilog2 x = bitlen n - 1" using True by (simp add: ilog2_def n_def)
  have "(of_int (2 ^ nat (bitlen n - 1)) :: rat) \<le> of_int n"
    using lo by (simp only: of_int_le_iff)
  also have "(of_int n :: rat) \<le> x" by (simp add: n_def)
  finally have "pow2 (bitlen n - 1) \<le> x" using b1 by (simp add: pow2_def)
  moreover have "n + 1 \<le> 2 ^ nat (bitlen n)" using hi by simp
  then have "(of_int (n + 1) :: rat) \<le> of_int (2 ^ nat (bitlen n))"
    by (simp only: of_int_le_iff)
  then have "of_int n + 1 \<le> pow2 (bitlen n)" using b1 by (simp add: pow2_def)
  then have "x < pow2 (bitlen n - 1 + 1)"
    using floor_correct[of x] by (simp add: n_def)
  ultimately show ?thesis by (simp add: il)
next
  case False
  define c where "c = \<lceil>1 / x\<rceil>"
  have y1: "1 < 1 / x" using False assms by simp
  then have c2: "2 \<le> c" unfolding c_def by (simp add: less_ceiling_iff[symmetric, of 1] )
  then have cpos: "0 < c - 1" by simp
  have b1: "1 \<le> bitlen (c - 1)" using c2 by (simp add: bitlen_ge_iff_power)
  from bitlen_bounds[OF cpos]
  have lo: "2 ^ nat (bitlen (c - 1) - 1) \<le> c - 1" and hi: "c - 1 < 2 ^ nat (bitlen (c - 1))"
    by simp_all
  have il: "ilog2 x = - bitlen (c - 1)" using False by (simp add: ilog2_def c_def)
  have "c \<le> 2 ^ nat (bitlen (c - 1))" using hi by simp
  then have "(of_int c :: rat) \<le> of_int (2 ^ nat (bitlen (c - 1)))"
    by (simp only: of_int_le_iff)
  then have "(of_int c :: rat) \<le> 2 ^ nat (bitlen (c - 1))" by simp
  moreover have "1 / x \<le> of_int c" by (simp add: c_def)
  ultimately have "1 / x \<le> 2 ^ nat (bitlen (c - 1))" by (rule order_trans[rotated])
  then have "1 \<le> x * 2 ^ nat (bitlen (c - 1))"
    using assms by (simp add: pos_divide_le_eq mult.commute)
  then have "1 / 2 ^ nat (bitlen (c - 1)) \<le> x" by (simp add: pos_divide_le_eq)
  then have lower: "pow2 (- bitlen (c - 1)) \<le> x" using b1 by (simp add: pow2_def)
  have "(of_int (2 ^ nat (bitlen (c - 1) - 1)) :: rat) \<le> of_int (c - 1)"
    using lo by (simp only: of_int_le_iff)
  then have "(2 ^ nat (bitlen (c - 1) - 1) :: rat) \<le> of_int (c - 1)" by simp
  moreover have "of_int (c - 1) < 1 / x" using ceiling_correct[of "1 / x"] by (simp add: c_def)
  ultimately have "2 ^ nat (bitlen (c - 1) - 1) < 1 / x" by (rule order_le_less_trans)
  then have "x * 2 ^ nat (bitlen (c - 1) - 1) < 1"
    using assms by (simp add: pos_less_divide_eq mult.commute)
  then have "x < 1 / 2 ^ nat (bitlen (c - 1) - 1)" by (simp add: pos_less_divide_eq)
  moreover have "pow2 (- bitlen (c - 1) + 1) = 1 / 2 ^ nat (bitlen (c - 1) - 1)"
    using b1 by (cases "bitlen (c - 1) = 1") (simp_all add: pow2_def)
  ultimately have upper: "x < pow2 (- bitlen (c - 1) + 1)" by simp
  from lower upper show ?thesis by (simp add: il)
qed

lemma ilog2_upper:
  assumes "0 < x" and "x < pow2 (K + 1)"
  shows "ilog2 x \<le> K"
proof (cases "1 \<le> x")
  case True
  with assms(2) have "1 < pow2 (K + 1)" by simp
  then have K: "0 \<le> K"
    using pow2_le_one[of "K + 1"] by (cases "K + 1 \<le> 0") simp_all
  have "x < of_int (2 ^ nat (K + 1))"
    using assms(2) K by (simp add: pow2_def)
  then have "\<lfloor>x\<rfloor> < 2 ^ nat (K + 1)" by (simp only: floor_less_iff)
  then have "bitlen \<lfloor>x\<rfloor> \<le> K + 1"
    using K by (simp add: bitlen_le_iff_power)
  with True show ?thesis by (simp add: ilog2_def)
next
  case False
  show ?thesis
  proof (cases "0 \<le> K")
    case True
    have "0 \<le> bitlen (\<lceil>1 / x\<rceil> - 1)" by (rule bitlen_nonneg)
    with False True show ?thesis by (simp add: ilog2_def)
  next
    case neg: False
    then have "x < 1 / 2 ^ nat (- (K + 1))"
      using assms(2) by (simp add: pow2_def split: if_splits)
    then have "2 ^ nat (- (K + 1)) < 1 / x"
      using assms(1) by (simp add: field_simps)
    then have "of_int (2 ^ nat (- (K + 1))) < 1 / x" by simp
    then have "2 ^ nat (- (K + 1)) < \<lceil>1 / x\<rceil>" by (simp only: less_ceiling_iff)
    moreover have "nat (- (K + 1)) = nat (- K) - 1" using neg by arith
    ultimately have "2 ^ (nat (- K) - 1) \<le> \<lceil>1 / x\<rceil> - 1"
      by simp
    then have "- K \<le> bitlen (\<lceil>1 / x\<rceil> - 1)"
      by (simp add: bitlen_ge_iff_power)
    with False show ?thesis by (simp add: ilog2_def)
  qed
qed

lemma round_even_ge:
  assumes "of_int a \<le> m"
  shows "a \<le> round_even m"
proof -
  from assms have "a \<le> \<lfloor>m\<rfloor>" by (simp add: le_floor_iff)
  moreover have "\<lfloor>m\<rfloor> \<le> round_even m" by (simp add: round_even_def Let_def)
  ultimately show ?thesis by simp
qed

lemma round_even_le:
  assumes "m \<le> of_int b"
  shows "round_even m \<le> b"
proof (cases "m = of_int \<lfloor>m\<rfloor>")
  case True
  then have "round_even m = \<lfloor>m\<rfloor>" by (simp add: round_even_def Let_def)
  moreover from assms have "\<lfloor>m\<rfloor> \<le> b" by (simp add: floor_le_iff)
  ultimately show ?thesis by simp
next
  case False
  moreover have "of_int \<lfloor>m\<rfloor> \<le> m" by simp
  ultimately have "of_int \<lfloor>m\<rfloor> < m" by (metis order_le_less)
  with assms have "of_int \<lfloor>m\<rfloor> < (of_int b :: rat)" by simp
  then have "\<lfloor>m\<rfloor> < b" by (simp only: of_int_less_iff)
  moreover have "round_even m \<le> \<lfloor>m\<rfloor> + 1" by (simp add: round_even_def Let_def)
  ultimately show ?thesis by simp
qed

lemma round_even_nearest: "\<bar>of_int (round_even m) - m\<bar> \<le> 1 / 2"
proof -
  have "of_int \<lfloor>m\<rfloor> \<le> m" and "m < of_int \<lfloor>m\<rfloor> + 1" by linarith+
  then show ?thesis by (auto simp: round_even_def Let_def abs_le_iff)
qed

text \<open>
  \<open>f64 x\<close> is within half a unit in the last place of \<open>x\<close>; for instance, the float64
  nearest to one tenth is \<open>3602879701896397 / 2^55\<close>, and \<open>2^53 + 1\<close> and \<open>2^53 + 3\<close>, each
  halfway between two float64 values, go to the one with the even significand.
\<close>

lemma f64_error:
  assumes "0 < x"
  shows "\<bar>f64 x - x\<bar> \<le> pow2 (ilog2 x - 53)"
proof -
  define e where "e = ilog2 x - 52"
  define m where "m = x / pow2 e"
  have "pow2 e \<noteq> 0" by (metis pow2_pos order_less_irrefl)
  then have x: "x = m * pow2 e" by (simp add: m_def)
  have "f64 x = of_int (round_even m) * pow2 e"
    using assms by (simp add: f64_def e_def m_def Let_def)
  then have "f64 x - x = of_int (round_even m) * pow2 e - m * pow2 e"
    using x by simp
  then have "f64 x - x = (of_int (round_even m) - m) * pow2 e"
    by (simp add: algebra_simps)
  moreover have "\<bar>pow2 e\<bar> = pow2 e" using pow2_pos[of e] by (simp only: abs_of_pos)
  ultimately have "\<bar>f64 x - x\<bar> = \<bar>of_int (round_even m) - m\<bar> * pow2 e"
    by (simp only: abs_mult)
  also have "\<dots> \<le> 1 / 2 * pow2 e"
    using round_even_nearest[of m] by (simp add: mult_right_mono less_imp_le)
  also have "1 / 2 * pow2 e = pow2 (- 1) * pow2 e" by (simp add: pow2_def)
  also have "\<dots> = pow2 (- 1 + e)" by (simp only: pow2_add)
  finally show ?thesis by (simp add: e_def)
qed

lemma f64_one_tenth: "f64 (1 / 10) = 3602879701896397 / 36028797018963968"
  by code_simp

lemma f64_ties_to_even:
  "f64 9007199254740993 = 9007199254740992"
  "f64 9007199254740995 = 9007199254740996"
  by code_simp+

text \<open>
  Rounding to float64 does not cross a number that is itself a multiple of the unit
  in the last place: if \<open>a \<le> x \<le> b\<close> and \<open>a\<close>, \<open>b\<close> are multiples of \<open>2^(K-52)\<close>, where
  \<open>x < 2^(K+1)\<close>, then \<open>a \<le> f64 x \<le> b\<close>.
\<close>

lemma f64_bracket:
  assumes x0: "0 \<le> x" and xK: "x < pow2 (K + 1)"
    and a: "a = of_int ka * pow2 (K - 52)" and b: "b = of_int kb * pow2 (K - 52)"
    and ax: "a \<le> x" and xb: "x \<le> b"
  shows "a \<le> f64 x \<and> f64 x \<le> b"
proof (cases "x = 0")
  case True
  with ax xb show ?thesis by (simp add: f64_def)
next
  case False
  with x0 have xpos: "0 < x" by simp
  define e where "e = ilog2 x - 52"
  have eK: "e \<le> K - 52" using ilog2_upper[OF xpos xK] by (simp add: e_def)
  define n where "n = (2::int) ^ nat (K - 52 - e)"
  have unit: "pow2 (K - 52) = of_int n * pow2 e"
    unfolding n_def using eK by (rule pow2_multiple)
  have fx: "f64 x = of_int (round_even (x / pow2 e)) * pow2 e"
    using xpos by (simp add: f64_def e_def Let_def)
  have "of_int (ka * n) \<le> x / pow2 e"
    using ax by (simp add: a unit pos_le_divide_eq mult.assoc)
  then have "ka * n \<le> round_even (x / pow2 e)" by (rule round_even_ge)
  then have "(of_int (ka * n) :: rat) \<le> of_int (round_even (x / pow2 e))"
    by (simp only: of_int_le_iff)
  then have "of_int (ka * n) * pow2 e \<le> of_int (round_even (x / pow2 e)) * pow2 e"
    by (simp add: mult_right_mono less_imp_le)
  then have lower: "a \<le> f64 x" by (simp add: a unit fx mult.assoc)
  have "x / pow2 e \<le> of_int (kb * n)"
    using xb by (simp add: b unit pos_divide_le_eq mult.assoc)
  then have "round_even (x / pow2 e) \<le> kb * n" by (rule round_even_le)
  then have "(of_int (round_even (x / pow2 e)) :: rat) \<le> of_int (kb * n)"
    by (simp only: of_int_le_iff)
  then have "of_int (round_even (x / pow2 e)) * pow2 e \<le> of_int (kb * n) * pow2 e"
    by (simp add: mult_right_mono less_imp_le)
  then have upper: "f64 x \<le> b" by (simp add: b unit fx mult.assoc)
  from lower upper show ?thesis ..
qed

lemma f64_exact:
  assumes "0 \<le> x" and "x < pow2 (K + 1)" and "x = of_int k * pow2 (K - 52)"
  shows "f64 x = x"
  using f64_bracket[OF assms(1,2) assms(3) assms(3)] by simp

lemma f64_of_int_exact:
  assumes "0 \<le> n" and "n < 2 ^ 53"
  shows "f64_of_int n = of_int n"
proof -
  have "(of_int n :: rat) < of_int (2 ^ 53)" using assms(2) by (simp only: of_int_less_iff)
  then have "(of_int n :: rat) < pow2 (52 + 1)" by (simp add: pow2_def)
  moreover have "(of_int n :: rat) = of_int n * pow2 (52 - 52)" by (simp add: pow2_def)
  moreover have "(0::rat) \<le> of_int n" using assms(1) by simp
  ultimately show ?thesis unfolding f64_of_int_def by (rule f64_exact[rotated])
qed

lemma sdiv_nonneg: "0 \<le> a \<Longrightarrow> 0 < b \<Longrightarrow> a sdiv b = a div (b::int)"
  by (cases "a = 0") (simp_all add: signed_divide_int_def)

lemma smod_nonneg: "0 \<le> a \<Longrightarrow> 0 < b \<Longrightarrow> a smod b = a mod (b::int)"
  by (cases "a = 0") (simp_all add: signed_modulo_int_def)

text \<open>
  Adding a float64 fraction below one to a small integer: when the fraction stays
  \<open>2^-P\<close> below one and the integer is below \<open>2^G\<close> with \<open>P + G \<le> 53\<close>, neither the
  division that produced the fraction nor the addition rounds up to the next integer.
\<close>

lemma f64_add_fraction:
  assumes h0: "0 \<le> h" and hG: "h < 2 ^ nat G" and G0: "0 \<le> G"
    and q0: "0 \<le> q" and qP: "q \<le> 1 - pow2 (- P)" and P0: "0 \<le> P" and PG: "P + G \<le> 53"
  shows "of_int h \<le> f64 (of_int h + f64 q) \<and> f64 (of_int h + f64 q) \<le> of_int h + 1 - pow2 (- P)"
proof -
  have one: "pow2 0 = 1" by (simp add: pow2_def)
  \<comment> \<open>the quotient\<close>
  have u1: "pow2 0 = of_int (2 ^ nat (0 - (- 53))) * pow2 (- 53)"
    by (rule pow2_multiple) simp
  have u2: "pow2 (- P) = of_int (2 ^ nat (- P - (- 53))) * pow2 (- 53)"
    by (rule pow2_multiple) (use P0 PG G0 in simp)
  have b1: "1 - pow2 (- P)
              = of_int (2 ^ nat (0 - (- 53)) - 2 ^ nat (- P - (- 53))) * pow2 (- 1 - 52)"
    using u1 u2 by (simp add: one algebra_simps)
  have a1: "(0::rat) = of_int 0 * pow2 (- 1 - 52)" by simp
  have "q < 1" using qP pow2_pos[of "- P"] by linarith
  then have "q < pow2 (- 1 + 1)" by (simp add: one)
  from f64_bracket[OF q0 this a1 b1 q0 qP]
  have f0: "0 \<le> f64 q" and f1: "f64 q \<le> 1 - pow2 (- P)" by simp_all
  \<comment> \<open>the sum\<close>
  define x where "x = of_int h + f64 q"
  have x0: "0 \<le> x" using h0 f0 by (simp add: x_def)
  have "h + 1 \<le> 2 ^ nat G" using hG by simp
  then have "(of_int (h + 1) :: rat) \<le> of_int (2 ^ nat G)" by (simp only: of_int_le_iff)
  then have "of_int h + 1 \<le> pow2 G" using G0 by (simp add: pow2_def)
  moreover have "x < of_int h + 1" unfolding x_def using f1 pow2_pos[of "- P"] by linarith
  ultimately have xK: "x < pow2 (G - 1 + 1)" by simp
  have v1: "pow2 0 = of_int (2 ^ nat (0 - (G - 53))) * pow2 (G - 53)"
    by (rule pow2_multiple) (use PG P0 in simp)
  have v2: "pow2 (- P) = of_int (2 ^ nat (- P - (G - 53))) * pow2 (G - 53)"
    by (rule pow2_multiple) (use PG in simp)
  have a2: "of_int h = of_int (h * 2 ^ nat (0 - (G - 53))) * pow2 (G - 1 - 52)"
    using v1 by (simp add: one algebra_simps)
  have b2: "of_int h + 1 - pow2 (- P)
              = of_int (h * 2 ^ nat (0 - (G - 53)) + 2 ^ nat (0 - (G - 53))
                        - 2 ^ nat (- P - (G - 53))) * pow2 (G - 1 - 52)"
    using v1 v2 by (simp add: one algebra_simps)
  have ax: "of_int h \<le> x" using f0 by (simp add: x_def)
  have xb: "x \<le> of_int h + 1 - pow2 (- P)" using f1 by (simp add: x_def)
  from f64_bracket[OF x0 xK a2 b2 ax xb] show ?thesis by (simp add: x_def)
qed

lemma int_of_f64_between:
  assumes "0 \<le> h" and "of_int h \<le> v" and "v \<le> of_int h + 1 - pow2 (- P)"
  shows "int_of_f64 v = h"
proof -
  have "(0::rat) \<le> of_int h" using assms(1) by simp
  with assms(2) have v0: "0 \<le> v" by simp
  have "v < of_int h + 1" using assms(3) pow2_pos[of "- P"] by linarith
  with assms(2) have "\<lfloor>v\<rfloor> = h" by (simp add: floor_unique)
  with v0 show ?thesis by (simp add: int_of_f64_def)
qed

text \<open>Integer division by a positive number.\<close>

lemma int_div_bounds:
  fixes d k :: int
  assumes "0 < k"
  shows "d div k * k \<le> d" and "d < (d div k + 1) * k"
proof -
  have e: "d = d div k * k + d mod k" by simp
  have m0: "0 \<le> d mod k" and m1: "d mod k < k" using assms by simp_all
  from e m0 show "d div k * k \<le> d" by linarith
  have "(d div k + 1) * k = d div k * k + k" by (simp add: algebra_simps)
  with e m1 show "d < (d div k + 1) * k" by linarith
qed

lemma int_div_less_iff:
  fixes d k n :: int
  assumes "0 < k"
  shows "d div k < n \<longleftrightarrow> d < n * k"
proof
  assume "d div k < n"
  then have "d div k + 1 \<le> n" by simp
  then have "(d div k + 1) * k \<le> n * k" using assms by (simp add: mult_right_mono)
  with int_div_bounds(2)[OF assms, of d] show "d < n * k" by simp
next
  assume a: "d < n * k"
  show "d div k < n"
  proof (rule ccontr)
    assume "\<not> d div k < n"
    then have "n \<le> d div k" by simp
    then have "n * k \<le> d div k * k" using assms by (simp add: mult_right_mono)
    with int_div_bounds(1)[OF assms, of d] a show False by simp
  qed
qed

lemma int_div_nonneg:
  fixes d k :: int
  shows "0 \<le> d \<Longrightarrow> 0 < k \<Longrightarrow> 0 \<le> d div k"
  by (simp add: pos_imp_zdiv_nonneg_iff)

text \<open>
  \<open>int(d.Minutes())\<close> below an hour and \<open>int(d.Hours())\<close> below a day are the integer
  quotients, to the nanosecond.
\<close>

lemma Duration_Minutes_floor:
  assumes "0 \<le> d" and "d < Hour"
  shows "int_of_f64 (Duration_Minutes d) = d div Minute"
proof -
  define m where "m = d div 60000000000"
  define r where "r = d mod 60000000000"
  have m0: "0 \<le> m" and m1: "m < 2 ^ nat 6"
    using assms by (simp_all add: m_def int_div_less_iff int_div_nonneg Hour_def Minute_def Second_def)
  have r0: "0 \<le> r" and r1: "r \<le> 59999999999"
    by (simp_all add: r_def)
  have em: "f64_of_int m = of_int m" using m0 m1 by (intro f64_of_int_exact) simp_all
  have er: "f64_of_int r = of_int r" using r0 r1 by (intro f64_of_int_exact) simp_all
  have q0: "(0::rat) \<le> of_int r / 60000000000" using r0 by simp
  have "(of_int r :: rat) \<le> 59999999999" using r1 by simp
  then have "(of_int r :: rat) / 60000000000 \<le> 59999999999 / 60000000000"
    by (simp add: divide_right_mono)
  also have "\<dots> \<le> 1 - pow2 (- 36)" by (simp add: pow2_def)
  finally have q1: "(of_int r :: rat) / 60000000000 \<le> 1 - pow2 (- 36)" .
  have D: "Duration_Minutes d = f64 (of_int m + f64 (of_int r / 60000000000))"
    using assms(1)
    by (simp add: Duration_Minutes_def f64_add_def f64_div_def sdiv_nonneg smod_nonneg
        Minute_def Second_def em[unfolded m_def] er[unfolded r_def] m_def r_def)
  from f64_add_fraction[OF m0 m1 _ q0 q1] 
  have "of_int m \<le> Duration_Minutes d \<and> Duration_Minutes d \<le> of_int m + 1 - pow2 (- 36)"
    by (simp add: D)
  then have "int_of_f64 (Duration_Minutes d) = m"
    using m0 by (intro int_of_f64_between[where P = 36]) simp_all
  then show ?thesis by (simp add: m_def Minute_def Second_def)
qed

lemma Duration_Hours_floor:
  assumes "0 \<le> d" and "d < 24 * Hour"
  shows "int_of_f64 (Duration_Hours d) = d div Hour"
proof -
  define h where "h = d div 3600000000000"
  define r where "r = d mod 3600000000000"
  have h0: "0 \<le> h" and h1: "h < 2 ^ nat 5"
    using assms by (simp_all add: h_def int_div_less_iff int_div_nonneg Hour_def Minute_def Second_def)
  have r0: "0 \<le> r" and r1: "r \<le> 3599999999999"
    by (simp_all add: r_def)
  have eh: "f64_of_int h = of_int h" using h0 h1 by (intro f64_of_int_exact) simp_all
  have er: "f64_of_int r = of_int r" using r0 r1 by (intro f64_of_int_exact) simp_all
  have q0: "(0::rat) \<le> of_int r / 3600000000000" using r0 by simp
  have "(of_int r :: rat) \<le> 3599999999999" using r1 by simp
  then have "(of_int r :: rat) / 3600000000000 \<le> 3599999999999 / 3600000000000"
    by (simp add: divide_right_mono)
  also have "\<dots> \<le> 1 - pow2 (- 42)" by (simp add: pow2_def)
  finally have q1: "(of_int r :: rat) / 3600000000000 \<le> 1 - pow2 (- 42)" .
  have D: "Duration_Hours d = f64 (of_int h + f64 (of_int r / 3600000000000))"
    using assms(1)
    by (simp add: Duration_Hours_def f64_add_def f64_div_def sdiv_nonneg smod_nonneg
        Hour_def Minute_def Second_def eh[unfolded h_def] er[unfolded r_def] h_def r_def)
  from f64_add_fraction[OF h0 h1 _ q0 q1] 
  have "of_int h \<le> Duration_Hours d \<and> Duration_Hours d \<le> of_int h + 1 - pow2 (- 42)"
    by (simp add: D)
  then have "int_of_f64 (Duration_Hours d) = h"
    using h0 by (intro int_of_f64_between[where P = 42]) simp_all
  then show ?thesis by (simp add: h_def Hour_def Minute_def Second_def)
qed

text \<open>
  For a whole number of seconds, \<open>d.Hours()\<close> stays \<open>2^-12\<close> below the next integer, and
  \<open>int(d.Hours() / 24)\<close> is the number of whole days.
\<close>

lemma Duration_Hours_whole_seconds:
  assumes "0 \<le> s" and "s * Second \<le> maxDuration"
  shows "of_int (s div 3600) \<le> Duration_Hours (s * Second)
         \<and> Duration_Hours (s * Second) \<le> of_int (s div 3600) + 1 - pow2 (- 12)"
proof -
  define d where "d = s * 1000000000"
  define h where "h = s div 3600"
  define r where "r = s mod 3600"
  have dh: "d div 3600000000000 = h"
    by (simp add: d_def h_def)
  have "d mod (3600 * 1000000000) = (s mod 3600) * 1000000000"
    unfolding d_def by (rule mod_mult_mult2)
  then have dr: "d mod 3600000000000 = r * 1000000000" by (simp add: r_def)
  have s1: "s \<le> 9223372036" using assms(2) by (simp add: Second_def maxDuration_def)
  have h0: "0 \<le> h" and h1: "h < 2 ^ nat 22"
    using assms(1) s1 by (simp_all add: h_def int_div_less_iff int_div_nonneg)
  have r0: "0 \<le> r" and r1: "r \<le> 3599"
    by (simp_all add: r_def)
  have eh: "f64_of_int h = of_int h" using h0 h1 by (intro f64_of_int_exact) simp_all
  have er: "f64_of_int (r * 1000000000) = of_int (r * 1000000000)"
    using r0 r1 by (intro f64_of_int_exact) simp_all
  have q: "(of_int (r * 1000000000) :: rat) / 3600000000000 = of_int r / 3600" by simp
  have q0: "(0::rat) \<le> of_int r / 3600" using r0 by simp
  have "(of_int r :: rat) \<le> 3599" using r1 by simp
  then have "(of_int r :: rat) / 3600 \<le> 3599 / 3600"
    by (simp add: divide_right_mono)
  also have "\<dots> \<le> 1 - pow2 (- 12)" by (simp add: pow2_def)
  finally have q1: "(of_int r :: rat) / 3600 \<le> 1 - pow2 (- 12)" .
  have d0: "0 \<le> d" using assms(1) by (simp add: d_def)
  have D: "Duration_Hours d = f64 (of_int h + f64 (of_int r / 3600))"
    using d0
    by (simp add: Duration_Hours_def f64_add_def f64_div_def sdiv_nonneg smod_nonneg
        Hour_def Minute_def Second_def dh dr eh er q)
  from f64_add_fraction[OF h0 h1 _ q0 q1] 
  have "of_int h \<le> Duration_Hours d \<and> Duration_Hours d \<le> of_int h + 1 - pow2 (- 12)"
    by (simp add: D)
  then show ?thesis by (simp add: d_def h_def Second_def)
qed

lemma days_whole_seconds:
  assumes "0 \<le> s" and "s * Second \<le> maxDuration"
  shows "int_of_f64 (f64_div (Duration_Hours (s * Second)) 24) = s div 86400"
proof -
  define v where "v = Duration_Hours (s * Second)"
  define h where "h = s div 3600"
  define D where "D = h div 24"
  from Duration_Hours_whole_seconds[OF assms]
  have hv: "of_int h \<le> v" and vh: "v \<le> of_int h + 1 - pow2 (- 12)"
    by (simp_all add: v_def h_def)
  have s1: "s \<le> 9223372036" using assms(2) by (simp add: Second_def maxDuration_def)
  have h0: "0 \<le> h" using assms(1) by (simp add: h_def int_div_nonneg)
  have h1: "h < 2562048" using s1 by (simp add: h_def int_div_less_iff)
  have D0: "0 \<le> D" using h0 by (simp add: D_def int_div_nonneg)
  have hD1: "D * 24 \<le> h" and hD2: "h < (D + 1) * 24"
    using int_div_bounds[of 24 h] by (simp_all add: D_def)
  have v0: "0 \<le> v" using hv h0 by (meson of_int_0_le_iff order_trans)
  have x0: "0 \<le> v / 24" using v0 by simp
  have p12: "pow2 (- 12) = 1 / 4096" and p17: "pow2 (- 17) = 1 / 131072"
    and p35: "pow2 (- 35) = 1 / 34359738368" and p18: "pow2 18 = 262144"
    by (simp_all add: pow2_def)
  have "(of_int h :: rat) < 2562048" using h1 by simp
  with vh have "v < 2562049" by (simp add: p12)
  then have xK: "v / 24 < pow2 (17 + 1)" by (simp add: p18)
  have a: "(of_int D :: rat) = of_int (D * 34359738368) * pow2 (17 - 52)"
    by (simp add: p35)
  have b: "(of_int D :: rat) + 1 - pow2 (- 17)
             = of_int (D * 34359738368 + 34359738368 - 262144) * pow2 (17 - 52)"
    by (simp add: p35 p17 field_simps)
  have "(of_int (D * 24) :: rat) \<le> of_int h" using hD1 by (simp only: of_int_le_iff)
  with hv have "of_int D * 24 \<le> v" by simp
  then have ax: "of_int D \<le> v / 24" by (simp add: pos_le_divide_eq)
  have "h \<le> D * 24 + 23" using hD2 by simp
  then have "(of_int h :: rat) \<le> of_int (D * 24 + 23)" by (simp only: of_int_le_iff)
  with vh have "v \<le> of_int D * 24 + 24 - 1 / 4096" by (simp add: p12)
  then have "v \<le> (of_int D + 1 - 1 / 131072) * 24" by (simp add: algebra_simps)
  then have xb: "v / 24 \<le> of_int D + 1 - pow2 (- 17)" by (simp add: p17 pos_divide_le_eq)
  from f64_bracket[OF x0 xK a b ax xb]
  have "int_of_f64 (f64 (v / 24)) = D"
    using D0 by (intro int_of_f64_between[where P = 17]) simp_all
  moreover have "D = s div 86400"
    using zdiv_zmult2_eq[of 24 s 3600] by (simp add: D_def h_def)
  ultimately show ?thesis by (simp add: f64_div_def v_def)
qed

lemma ago_unfold:
  "ago n ''minute'' = (if n = 1 then ''1 minute ago'' else fmt_d n @ '' minutes ago'')"
  "ago n ''hour'' = (if n = 1 then ''1 hour ago'' else fmt_d n @ '' hours ago'')"
  "ago n ''day'' = (if n = 1 then ''1 day ago'' else fmt_d n @ '' days ago'')"
  "ago n ''month'' = (if n = 1 then ''1 month ago'' else fmt_d n @ '' months ago'')"
  "ago n ''year'' = (if n = 1 then ''1 year ago'' else fmt_d n @ '' years ago'')"
  by (simp_all add: ago_def)

lemma formatTimeAgo_under_a_day:
  assumes "0 \<le> d" and "d < 24 * Hour"
  shows "formatTimeAgo d = timeAgo_buckets d"
proof -
  have lt: "d < 30 * (24 * Hour)" "Minute < Hour" "0 < Hour"
    using assms by (simp_all add: Hour_def Minute_def Second_def)
  show ?thesis
  proof (cases "d < Hour")
    case True
    with assms show ?thesis
      by (simp add: formatTimeAgo_def timeAgo_buckets_def Duration_Minutes_floor ago_unfold
          Let_def)
  next
    case False
    with assms show ?thesis
      by (simp add: formatTimeAgo_def timeAgo_buckets_def Duration_Hours_floor ago_unfold
          Let_def)
  qed
qed

lemma formatTimeAgo_days_whole_seconds:
  assumes "0 \<le> s" and "s * Second \<le> maxDuration" and "24 * Hour \<le> s * Second"
  shows "formatTimeAgo (s * Second) = timeAgo_buckets (s * Second)"
proof -
  define days where "days = s div 86400"
  have d: "int_of_f64 (f64_div (Duration_Hours (s * Second)) 24) = days"
    using days_whole_seconds[OF assms(1,2)] by (simp add: days_def)
  have s24: "86400 \<le> s" using assms(3) by (simp add: Hour_def Minute_def Second_def)
  have nl: "\<not> s * Second < Minute" "\<not> s * Second < Hour" "\<not> s * Second < 24 * Hour"
    using s24 by (simp_all add: Hour_def Minute_def Second_def)
  have days0: "0 \<le> days" using assms(1) by (simp add: days_def int_div_nonneg)
  have e1: "s * Second div (24 * Hour) = days"
    by (simp add: days_def Hour_def Minute_def Second_def)
  have e30: "s * Second div (30 * (24 * Hour)) = days div 30"
    using zdiv_zmult2_eq[of 30 s 86400]
    by (simp add: days_def Hour_def Minute_def Second_def)
  have e365: "s * Second div (365 * (24 * Hour)) = days div 365"
    using zdiv_zmult2_eq[of 365 s 86400]
    by (simp add: days_def Hour_def Minute_def Second_def)
  have c30: "s * Second < 30 * (24 * Hour) \<longleftrightarrow> days < 30"
    by (simp add: days_def int_div_less_iff Hour_def Minute_def Second_def)
  have c365: "s * Second < 365 * (24 * Hour) \<longleftrightarrow> days < 365"
    by (simp add: days_def int_div_less_iff Hour_def Minute_def Second_def)
  have one: "days = 1 \<Longrightarrow> days < 30" by simp
  show ?thesis
    unfolding formatTimeAgo_def timeAgo_buckets_def d e1 e30 e365 c30 c365 Let_def
    using nl days0 one by (simp add: ago_unfold sdiv_nonneg)
qed

text \<open>
  \<open>formatTimeAgo\<close> computes the buckets of the specification for every duration from
  zero to the largest that is below 24 hours or a whole number of seconds.
\<close>

lemma formatTimeAgo_agrees_with_buckets:
  assumes "0 \<le> d" and "d \<le> maxDuration" and "d < 24 * Hour \<or> Second dvd d"
  shows "formatTimeAgo d = timeAgo_buckets d"
proof (cases "d < 24 * Hour")
  case True
  with assms(1) show ?thesis by (rule formatTimeAgo_under_a_day)
next
  case False
  with assms(3) obtain s where s: "d = s * Second" by (auto simp: dvd_def mult.commute)
  from assms(1) s have "0 \<le> s" by (simp add: Second_def)
  moreover from assms(2) s have "s * Second \<le> maxDuration" by simp
  moreover from False s have "24 * Hour \<le> s * Second" by simp
  ultimately show ?thesis unfolding s by (rule formatTimeAgo_days_whole_seconds)
qed

text \<open>The examples of the specification.\<close>

lemma formatTimeAgo_examples:
  "formatTimeAgo (30 * Second) = ''just now''"
  "formatTimeAgo (90 * Second) = ''1 minute ago''"
  "formatTimeAgo (7200 * Second) = ''2 hours ago''"
  "formatTimeAgo (26 * Hour) = ''1 day ago''"
  "formatTimeAgo (40 * (24 * Hour)) = ''1 month ago''"
  "formatTimeAgo (400 * (24 * Hour)) = ''1 year ago''"
proof -
  have b: "timeAgo_buckets (30 * Second) = ''just now''"
    "timeAgo_buckets (90 * Second) = ''1 minute ago''"
    "timeAgo_buckets (7200 * Second) = ''2 hours ago''"
    "timeAgo_buckets (26 * Hour) = ''1 day ago''"
    "timeAgo_buckets (40 * (24 * Hour)) = ''1 month ago''"
    "timeAgo_buckets (400 * (24 * Hour)) = ''1 year ago''"
    by (simp_all add: timeAgo_buckets_def ago_def fmt_d_def decimal.simps Hour_def Minute_def
        Second_def)
  have "formatTimeAgo (30 * Second) = timeAgo_buckets (30 * Second)"
    by (rule formatTimeAgo_agrees_with_buckets)
       (simp_all add: maxDuration_def Hour_def Minute_def Second_def)
  moreover have "formatTimeAgo (90 * Second) = timeAgo_buckets (90 * Second)"
    by (rule formatTimeAgo_agrees_with_buckets)
       (simp_all add: maxDuration_def Hour_def Minute_def Second_def)
  moreover have "formatTimeAgo (7200 * Second) = timeAgo_buckets (7200 * Second)"
    by (rule formatTimeAgo_agrees_with_buckets)
       (simp_all add: maxDuration_def Hour_def Minute_def Second_def)
  moreover have "formatTimeAgo (26 * Hour) = timeAgo_buckets (26 * Hour)"
    by (rule formatTimeAgo_agrees_with_buckets)
       (simp_all add: maxDuration_def Hour_def Minute_def Second_def)
  moreover have "formatTimeAgo (40 * (24 * Hour)) = timeAgo_buckets (40 * (24 * Hour))"
    by (rule formatTimeAgo_agrees_with_buckets)
       (simp_all add: maxDuration_def Hour_def Minute_def Second_def)
  moreover have "formatTimeAgo (400 * (24 * Hour)) = timeAgo_buckets (400 * (24 * Hour))"
    by (rule formatTimeAgo_agrees_with_buckets)
       (simp_all add: maxDuration_def Hour_def Minute_def Second_def)
  ultimately show
    "formatTimeAgo (30 * Second) = ''just now''"
    "formatTimeAgo (90 * Second) = ''1 minute ago''"
    "formatTimeAgo (7200 * Second) = ''2 hours ago''"
    "formatTimeAgo (26 * Hour) = ''1 day ago''"
    "formatTimeAgo (40 * (24 * Hour)) = ''1 month ago''"
    "formatTimeAgo (400 * (24 * Hour)) = ''1 year ago''"
    using b by simp_all
qed

text \<open>
  Claim C9 says that every duration under 365 days is reported in months. One
  nanosecond below 365 days, \<open>d.Hours()\<close> is \<open>8759 + 3599999999999/3600000000000\<close>
  rounded to float64, which is \<open>8760\<close>; so \<open>int(d.Hours() / 24)\<close> is 365 and
  \<open>formatTimeAgo\<close> returns \<open>1 year ago\<close>, where the buckets of the claim give
  \<open>12 months ago\<close>.
\<close>

theorem formatTimeAgo_one_nanosecond_below_a_year:
  "formatTimeAgo 31535999999999999 = ''1 year ago''
   \<and> 31535999999999999 < 365 * (24 * Hour)
   \<and> timeAgo_buckets 31535999999999999 = ''12 months ago''"
proof -
  have "formatTimeAgo 31535999999999999 = ''1 year ago''" by code_simp
  moreover have "31535999999999999 < 365 * (24 * Hour)"
    by (simp add: Hour_def Minute_def Second_def)
  moreover have "timeAgo_buckets 31535999999999999 = ''12 months ago''"
    by (simp add: timeAgo_buckets_def ago_def fmt_d_def decimal.simps Hour_def Minute_def
        Second_def)
  ultimately show ?thesis by blast
qed

subsection \<open>Rendering and the clock\<close>

text \<open>
  Each general comment and each anchored comment with a timestamp that parses makes
  one clock reading; nothing else of the report reads the clock.
\<close>

lemma printGeneralIssue_reads:
  "snd (printGeneralIssue lib clock st review) =
     snd st + length (filter (\<lambda>c. CreatedAt c \<noteq> [] \<and> parseTime lib (CreatedAt c) \<noteq> None)
                        [review])"
  by (simp add: printGeneralIssue_def Let_def split: option.splits)

lemma printGeneralIssue_clock:
  assumes "CreatedAt review \<noteq> [] \<and> parseTime lib (CreatedAt review) \<noteq> None
           \<longrightarrow> clock1 (snd st) = clock2 (snd st)"
  shows "printGeneralIssue lib clock1 st review = printGeneralIssue lib clock2 st review"
  using assms
  by (auto simp add: printGeneralIssue_def time_Since_def Let_def split: option.splits)

lemma printGeneralIssues_reads:
  "snd (printGeneralIssues lib clock st reviews) =
     snd st + length (filter (\<lambda>c. CreatedAt c \<noteq> [] \<and> parseTime lib (CreatedAt c) \<noteq> None)
                        reviews)"
proof (induction reviews arbitrary: st)
  case Nil
  show ?case by simp
next
  case (Cons review rest)
  from Cons.IH[of "printGeneralIssue lib clock st review"]
       printGeneralIssue_reads[of lib clock st review]
  show ?case by simp
qed

lemma printGeneralIssues_clock:
  assumes "\<forall>i. snd st \<le> i
                \<and> i < snd st + length (filter (\<lambda>c. CreatedAt c \<noteq> []
                                                  \<and> parseTime lib (CreatedAt c) \<noteq> None) reviews)
              \<longrightarrow> clock1 i = clock2 i"
  shows "printGeneralIssues lib clock1 st reviews = printGeneralIssues lib clock2 st reviews"
  using assms
proof (induction reviews arbitrary: st)
  case Nil
  show ?case by simp
next
  case (Cons review rest)
  have first: "CreatedAt review \<noteq> [] \<and> parseTime lib (CreatedAt review) \<noteq> None
               \<longrightarrow> clock1 (snd st) = clock2 (snd st)"
    using Cons.prems by simp
  have step: "printGeneralIssue lib clock1 st review = printGeneralIssue lib clock2 st review"
    using first by (rule printGeneralIssue_clock)
  have "\<forall>i. snd (printGeneralIssue lib clock2 st review) \<le> i
             \<and> i < snd (printGeneralIssue lib clock2 st review)
                   + length (filter (\<lambda>c. CreatedAt c \<noteq> []
                                          \<and> parseTime lib (CreatedAt c) \<noteq> None) rest)
           \<longrightarrow> clock1 i = clock2 i"
    using Cons.prems printGeneralIssue_reads[of lib clock2 st review] by simp
  from Cons.IH[OF this] step show ?case by simp
qed

lemma printComment_reads:
  "snd (printComment lib clock st comment is_last) =
     snd st + length (filter (\<lambda>c. CreatedAt c \<noteq> [] \<and> parseTime lib (CreatedAt c) \<noteq> None)
                        [comment])"
  by (simp add: printComment_def Let_def split: option.splits)

lemma printComment_clock:
  assumes "CreatedAt comment \<noteq> [] \<and> parseTime lib (CreatedAt comment) \<noteq> None
           \<longrightarrow> clock1 (snd st) = clock2 (snd st)"
  shows "printComment lib clock1 st comment is_last = printComment lib clock2 st comment is_last"
  using assms
  by (auto simp add: printComment_def time_Since_def Let_def split: option.splits)

lemma printComments_reads:
  "snd (printComments lib clock st comments) =
     snd st + length (filter (\<lambda>c. CreatedAt c \<noteq> [] \<and> parseTime lib (CreatedAt c) \<noteq> None)
                        comments)"
proof (induction comments arbitrary: st)
  case Nil
  show ?case by simp
next
  case (Cons comment rest)
  from Cons.IH[of "printComment lib clock st comment (rest = [])"]
       printComment_reads[of lib clock st comment "rest = []"]
  show ?case by simp
qed

lemma printComments_clock:
  assumes "\<forall>i. snd st \<le> i
                \<and> i < snd st + length (filter (\<lambda>c. CreatedAt c \<noteq> []
                                                  \<and> parseTime lib (CreatedAt c) \<noteq> None) comments)
              \<longrightarrow> clock1 i = clock2 i"
  shows "printComments lib clock1 st comments = printComments lib clock2 st comments"
  using assms
proof (induction comments arbitrary: st)
  case Nil
  show ?case by simp
next
  case (Cons comment rest)
  have first: "CreatedAt comment \<noteq> [] \<and> parseTime lib (CreatedAt comment) \<noteq> None
               \<longrightarrow> clock1 (snd st) = clock2 (snd st)"
    using Cons.prems by simp
  have step: "printComment lib clock1 st comment (rest = [])
                = printComment lib clock2 st comment (rest = [])"
    using first by (rule printComment_clock)
  have "\<forall>i. snd (printComment lib clock2 st comment (rest = [])) \<le> i
             \<and> i < snd (printComment lib clock2 st comment (rest = []))
                   + length (filter (\<lambda>c. CreatedAt c \<noteq> []
                                          \<and> parseTime lib (CreatedAt c) \<noteq> None) rest)
           \<longrightarrow> clock1 i = clock2 i"
    using Cons.prems printComment_reads[of lib clock2 st comment "rest = []"] by simp
  from Cons.IH[OF this] step show ?case by simp
qed

lemma printHumanReadable_reads:
  "snd (printHumanReadable lib clock k feedback) =
     k + length (filter (\<lambda>c. CreatedAt c \<noteq> [] \<and> parseTime lib (CreatedAt c) \<noteq> None)
                   (GeneralIssues feedback @ Comments feedback))"
  unfolding printHumanReadable_def Let_def
  by (simp add: printGeneralIssues_reads printComments_reads)

lemma printHumanReadable_clock:
  assumes "\<forall>i. k \<le> i
                \<and> i < k + length (filter (\<lambda>c. CreatedAt c \<noteq> []
                                             \<and> parseTime lib (CreatedAt c) \<noteq> None)
                                    (GeneralIssues feedback @ Comments feedback))
              \<longrightarrow> clock1 i = clock2 i"
  shows "printHumanReadable lib clock1 k feedback = printHumanReadable lib clock2 k feedback"
proof -
  have g: "printGeneralIssues lib clock1 st (GeneralIssues feedback)
            = printGeneralIssues lib clock2 st (GeneralIssues feedback)" if "snd st = k" for st
    using assms that by (intro printGeneralIssues_clock) simp
  have c: "printComments lib clock1 st (Comments feedback)
            = printComments lib clock2 st (Comments feedback)"
    if "snd st = k + length (filter (\<lambda>c. CreatedAt c \<noteq> []
                                          \<and> parseTime lib (CreatedAt c) \<noteq> None)
                                 (GeneralIssues feedback))" for st
    using assms that by (intro printComments_clock) simp
  have c0: "printComments lib clock1 st (Comments feedback)
            = printComments lib clock2 st (Comments feedback)"
    if "snd st = k" and "GeneralIssues feedback = []" for st
    using c[of st] that by simp
  show ?thesis
    unfolding printHumanReadable_def Let_def
    by (simp add: g c c0 printGeneralIssues_reads)
qed

text \<open>Starting the report after \<open>k\<close> readings is starting it at once with the clock moved on.\<close>

lemma printGeneralIssue_shift:
  "printGeneralIssue lib clock (out, k + j) review =
     (fst (printGeneralIssue lib (\<lambda>i. clock (k + i)) (out, j) review),
      k + snd (printGeneralIssue lib (\<lambda>i. clock (k + i)) (out, j) review))"
  by (simp add: printGeneralIssue_def time_Since_def Let_def split: option.splits)

lemma printGeneralIssues_shift:
  "printGeneralIssues lib clock (out, k + j) reviews =
     (fst (printGeneralIssues lib (\<lambda>i. clock (k + i)) (out, j) reviews),
      k + snd (printGeneralIssues lib (\<lambda>i. clock (k + i)) (out, j) reviews))"
proof (induction reviews arbitrary: out j)
  case Nil
  show ?case by simp
next
  case (Cons review rest)
  obtain out' j' where s: "printGeneralIssue lib (\<lambda>i. clock (k + i)) (out, j) review = (out', j')"
    by (cases "printGeneralIssue lib (\<lambda>i. clock (k + i)) (out, j) review")
  then have "printGeneralIssue lib clock (out, k + j) review = (out', k + j')"
    by (simp add: printGeneralIssue_shift)
  with s Cons.IH[of out' j'] show ?case by simp
qed

lemma printComment_shift:
  "printComment lib clock (out, k + j) comment is_last =
     (fst (printComment lib (\<lambda>i. clock (k + i)) (out, j) comment is_last),
      k + snd (printComment lib (\<lambda>i. clock (k + i)) (out, j) comment is_last))"
  by (simp add: printComment_def time_Since_def Let_def split: option.splits)

lemma printComments_shift:
  "printComments lib clock (out, k + j) comments =
     (fst (printComments lib (\<lambda>i. clock (k + i)) (out, j) comments),
      k + snd (printComments lib (\<lambda>i. clock (k + i)) (out, j) comments))"
proof (induction comments arbitrary: out j)
  case Nil
  show ?case by simp
next
  case (Cons comment rest)
  obtain out' j' where
    s: "printComment lib (\<lambda>i. clock (k + i)) (out, j) comment (rest = []) = (out', j')"
    by (cases "printComment lib (\<lambda>i. clock (k + i)) (out, j) comment (rest = [])")
  then have "printComment lib clock (out, k + j) comment (rest = []) = (out', k + j')"
    by (simp add: printComment_shift)
  with s Cons.IH[of out' j'] show ?case by simp
qed

lemma printHumanReadable_shift:
  "printHumanReadable lib clock k feedback =
     (fst (printHumanReadable lib (\<lambda>i. clock (k + i)) 0 feedback),
      k + snd (printHumanReadable lib (\<lambda>i. clock (k + i)) 0 feedback))"
proof -
  have g: "printGeneralIssues lib clock (out, k) reviews =
     (fst (printGeneralIssues lib (\<lambda>i. clock (k + i)) (out, 0) reviews),
      k + snd (printGeneralIssues lib (\<lambda>i. clock (k + i)) (out, 0) reviews))" for out reviews
    using printGeneralIssues_shift[of lib clock out k 0 reviews] by simp
  have c0: "printComments lib clock (out, k) comments =
     (fst (printComments lib (\<lambda>i. clock (k + i)) (out, 0) comments),
      k + snd (printComments lib (\<lambda>i. clock (k + i)) (out, 0) comments))" for out comments
    using printComments_shift[of lib clock out k 0 comments] by simp
  show ?thesis
    unfolding printHumanReadable_def Let_def
    by (simp add: g c0 printComments_shift)
qed

text \<open>The sample aggregate, rendered at the first and at the second clock reading.\<close>

lemma formatTimeAgo_30_90:
  "formatTimeAgo 30000000000 = ''just now''"
  "formatTimeAgo 90000000000 = ''1 minute ago''"
  using formatTimeAgo_examples(1,2) by (simp_all add: Second_def)

lemma sample_first_rendering:
  "render sample_lib sample_clock 0 False sample_feedback =
     (Human (colorBold @ ''Add certificate management #117'' @ colorReset @ newline
             @ colorGreen @ ''Open'' @ colorReset @ '' '' @ bullet @ '' '' @ colorGray
             @ ''https://github.com/o/r/pull/117'' @ colorReset @ newline
             @ newline
             @ colorYellow @ ''!'' @ colorReset @ '' Found 1 unresolved comment(s)'' @ newline
             @ newline
             @ colorBold @ ''reviewer'' @ colorReset @ '' commented '' @ colorGray
             @ ''(Member)'' @ colorReset @ '' '' @ bullet @ '' '' @ colorGray
             @ ''just now'' @ colorReset @ newline @ newline
             @ ''Thanks for the PR'' @ newline
             @ newline), 1)"
  by (simp add: render_def printHumanReadable_def printGeneralIssue_def sample_feedback_def
      sample_comment_def sample_lib_def sample_clock_def parseTime_def time_Since_def
      Time_Sub_def minDuration_def maxDuration_def Second_def Minute_def fmt_d_def
      decimal.simps newline_def formatTimeAgo_30_90 Let_def)

lemma sample_second_rendering:
  "render sample_lib sample_clock (Suc 0) False sample_feedback =
     (Human (colorBold @ ''Add certificate management #117'' @ colorReset @ newline
             @ colorGreen @ ''Open'' @ colorReset @ '' '' @ bullet @ '' '' @ colorGray
             @ ''https://github.com/o/r/pull/117'' @ colorReset @ newline
             @ newline
             @ colorYellow @ ''!'' @ colorReset @ '' Found 1 unresolved comment(s)'' @ newline
             @ newline
             @ colorBold @ ''reviewer'' @ colorReset @ '' commented '' @ colorGray
             @ ''(Member)'' @ colorReset @ '' '' @ bullet @ '' '' @ colorGray
             @ ''1 minute ago'' @ colorReset @ newline @ newline
             @ ''Thanks for the PR'' @ newline
             @ newline), 2)"
  by (simp add: render_def printHumanReadable_def printGeneralIssue_def sample_feedback_def
      sample_comment_def sample_lib_def sample_clock_def parseTime_def time_Since_def
      Time_Sub_def minDuration_def maxDuration_def Second_def Minute_def fmt_d_def
      decimal.simps newline_def formatTimeAgo_30_90 Let_def)

text \<open>
  Against claim C3 as stated: the human-readable report of the sample aggregate,
  rendered a second time with the same clock one reading later, differs from the
  first (\<open>just now\<close> has become \<open>1 minute ago\<close>).
\<close>

theorem rendering_twice_differs:
  "fst (render sample_lib sample_clock 0 False sample_feedback)
     \<noteq> fst (render sample_lib sample_clock
               (snd (render sample_lib sample_clock 0 False sample_feedback))
               False sample_feedback)"
  by (simp add: sample_first_rendering sample_second_rendering colorReset_def)

text \<open>
  Claim C3, amended. The structured report of an aggregate does not depend on the
  clock and reads it not at all. The human-readable report takes no instant from its
  caller: it reads the clock while it renders, once for each general or anchored
  comment whose \<open>created_at\<close> is not empty and parses. Two renderings of the same
  aggregate (started at any two points of the clock, or with two clocks) are identical
  when the readings that are made are the same, one by one; the second rendering then
  makes as many readings as the first. In particular they are identical when no
  \<open>created_at\<close> parses, whatever the clocks show.
\<close>

theorem rendering_depends_only_on_the_clock_readings:
  "snd (render lib clock1 k1 jsonOutput feedback) =
     k1 + (if jsonOutput then 0
           else length (filter (\<lambda>c. CreatedAt c \<noteq> [] \<and> parseTime lib (CreatedAt c) \<noteq> None)
                          (GeneralIssues feedback @ Comments feedback)))
   \<and> ((\<forall>i < snd (render lib clock1 k1 jsonOutput feedback) - k1.
          clock1 (k1 + i) = clock2 (k2 + i))
      \<longrightarrow> fst (render lib clock1 k1 jsonOutput feedback)
            = fst (render lib clock2 k2 jsonOutput feedback)
          \<and> snd (render lib clock2 k2 jsonOutput feedback) - k2
            = snd (render lib clock1 k1 jsonOutput feedback) - k1)
   \<and> ((\<forall>c \<in> set (GeneralIssues feedback @ Comments feedback).
          CreatedAt c = [] \<or> parseTime lib (CreatedAt c) = None)
      \<longrightarrow> fst (render lib clock1 k1 jsonOutput feedback)
            = fst (render lib clock2 k2 jsonOutput feedback))"
proof -
  let ?n = "length (filter (\<lambda>c. CreatedAt c \<noteq> [] \<and> parseTime lib (CreatedAt c) \<noteq> None)
                      (GeneralIssues feedback @ Comments feedback))"
  have reads: "snd (render lib clock k jsonOutput feedback) =
                 k + (if jsonOutput then 0 else ?n)" for clock k
    by (simp add: render_def printHumanReadable_reads)
  have same: "fst (render lib clock1 k1 jsonOutput feedback)
                = fst (render lib clock2 k2 jsonOutput feedback)"
    if agree: "\<forall>i < (if jsonOutput then 0 else ?n). clock1 (k1 + i) = clock2 (k2 + i)"
  proof (cases jsonOutput)
    case True
    then show ?thesis by (simp add: render_def)
  next
    case False
    with agree have "\<forall>i. 0 \<le> i \<and> i < 0 + ?n
        \<longrightarrow> (\<lambda>i. clock1 (k1 + i)) i = (\<lambda>i. clock2 (k2 + i)) i"
      by simp
    then have "printHumanReadable lib (\<lambda>i. clock1 (k1 + i)) 0 feedback
                 = printHumanReadable lib (\<lambda>i. clock2 (k2 + i)) 0 feedback"
      by (rule printHumanReadable_clock)
    then have "fst (printHumanReadable lib clock1 k1 feedback)
                 = fst (printHumanReadable lib clock2 k2 feedback)"
      using printHumanReadable_shift[of lib clock1 k1 feedback]
            printHumanReadable_shift[of lib clock2 k2 feedback] by simp
    then show ?thesis by (simp add: render_def)
  qed
  have none: "?n = 0"
    if "\<forall>c \<in> set (GeneralIssues feedback @ Comments feedback).
          CreatedAt c = [] \<or> parseTime lib (CreatedAt c) = None"
    using that by (auto simp add: filter_empty_conv)
  show ?thesis
  proof (intro conjI impI)
    show "snd (render lib clock1 k1 jsonOutput feedback) =
            k1 + (if jsonOutput then 0 else ?n)"
      by (rule reads)
  next
    assume "\<forall>i < snd (render lib clock1 k1 jsonOutput feedback) - k1.
              clock1 (k1 + i) = clock2 (k2 + i)"
    then show "fst (render lib clock1 k1 jsonOutput feedback)
                 = fst (render lib clock2 k2 jsonOutput feedback)"
      by (intro same) (simp add: reads)
  next
    show "snd (render lib clock2 k2 jsonOutput feedback) - k2
            = snd (render lib clock1 k1 jsonOutput feedback) - k1"
      by (simp add: reads)
  next
    assume "\<forall>c \<in> set (GeneralIssues feedback @ Comments feedback).
              CreatedAt c = [] \<or> parseTime lib (CreatedAt c) = None"
    from none[OF this] show "fst (render lib clock1 k1 jsonOutput feedback)
                 = fst (render lib clock2 k2 jsonOutput feedback)"
      by (intro same) simp
  qed
qed

text \<open>
  Three instances on the sample aggregate: the structured report at two points of the
  moving clock; the human-readable report, which makes one reading, with the moving
  and the stopped clock agreeing on that reading; and the human-readable report when
  no timestamp parses, at two points of the moving clock, which shows different
  instants.
\<close>

theorem rendering_depends_only_on_the_clock_readings_witness:
  "fst (render sample_lib sample_clock 0 True sample_feedback)
     = fst (render sample_lib sample_clock 1 True sample_feedback)
   \<and> snd (render sample_lib sample_clock 0 False sample_feedback) = 1
   \<and> fst (render sample_lib sample_clock 0 False sample_feedback)
     = fst (render sample_lib stopped_clock 1 False sample_feedback)
   \<and> sample_clock 0 \<noteq> sample_clock 1
   \<and> fst (render unparsed_lib sample_clock 0 False sample_feedback)
     = fst (render unparsed_lib sample_clock 1 False sample_feedback)"
proof -
  have a: "snd (render sample_lib sample_clock 0 True sample_feedback) = 0"
    by (simp add: render_def)
  have b: "snd (render sample_lib sample_clock 0 False sample_feedback) = 1"
    by (simp add: sample_first_rendering)
  have c: "sample_clock (0 + 0) = stopped_clock (1 + 0)"
    by (simp add: sample_clock_def stopped_clock_def)
  have d: "\<forall>c \<in> set (GeneralIssues sample_feedback @ Comments sample_feedback).
             CreatedAt c = [] \<or> parseTime unparsed_lib (CreatedAt c) = None"
    by (simp add: parseTime_def unparsed_lib_def)
  have e: "sample_clock 0 \<noteq> sample_clock 1"
    by (simp add: sample_clock_def Minute_def Second_def)
  from rendering_depends_only_on_the_clock_readings[of sample_lib sample_clock 0 True
         sample_feedback sample_clock 1]
       rendering_depends_only_on_the_clock_readings[of sample_lib sample_clock 0 False
         sample_feedback stopped_clock 1]
       rendering_depends_only_on_the_clock_readings[of unparsed_lib sample_clock 0 False
         sample_feedback sample_clock 1] a b c d e
  show ?thesis by simp
qed

end
